theory Spec2Isabelle
  imports Main "HOL-Library.AList"
begin

section \<open>Tokens and values\<close>

text \<open>
  The scene parser of \<^verbatim>\<open>src/scene_tools/parser.ts\<close> and the tokenizer subclass of
  \<^verbatim>\<open>src/utils/tokenizer.ts\<close>. Strings are lists of \<^typ>\<open>char\<close>; of the line terminators
  of JavaScript only line feed and carriage return exist in this character type.
\<close>

datatype TokenType =
    CURLY_BRACKET_OPEN | CURLY_BRACKET_CLOSE | BRACKET_OPEN | BRACKET_CLOSE
  | PARENTHESIS_OPEN | PARENTHESIS_CLOSE | COLON | COMMA | PERIOD | EQUAL
  | COLOR | STRING_NAME | STRING | NUMBER | IDENTIFIER | ARRAY | ERROR | EOF

datatype 'v token =
  Token (ttype: TokenType) (tvalue: 'v) (ttext: string) (tpos: nat) (tline: nat) (tcolumn: nat)

text \<open>
  The values the parser handles (\<^verbatim>\<open>any\<close> in the source). A number is kept as the numeric
  text it was read from: \<open>VNum s\<close> stands for the double that \<^verbatim>\<open>parseFloat\<close> or
  \<^verbatim>\<open>Number\<close> yields for \<open>s\<close>, and \<open>VNaN\<close> for the result of \<^verbatim>\<open>Number\<close> on a text that is
  no numeric literal. \<open>VList\<close> is the array of an ARRAY token, \<open>VArr\<close> the array built by
  \<^verbatim>\<open>parseArray\<close>, \<open>VDict\<close> the \<^verbatim>\<open>Map\<close> built by \<^verbatim>\<open>parseDictionary\<close> (in insertion order),
  \<open>VObj\<close> an element read out of a \<open>VArr\<close>.
  \<^verbatim>\<open>praseValue\<close> returns either a token (from \<^verbatim>\<open>parsePrimitive\<close>) or an object literal
  with the fields of \<^verbatim>\<open>NodeProperty\<close>.
\<close>

datatype jsval =
    VUndefined | VStr string | VNum string | VNaN | VBool bool
  | VList "jsval list" | VArr "pvalue list" | VDict "(jsval \<times> pvalue) list"
  | VObj pvalue
and pvalue =
    PTok "jsval token"
  | NodeProperty jsval jsval jsval string nat

fun TokenType_name :: "TokenType \<Rightarrow> string" where
  "TokenType_name CURLY_BRACKET_OPEN = ''CURLY_BRACKET_OPEN''"
| "TokenType_name CURLY_BRACKET_CLOSE = ''CURLY_BRACKET_CLOSE''"
| "TokenType_name BRACKET_OPEN = ''BRACKET_OPEN''"
| "TokenType_name BRACKET_CLOSE = ''BRACKET_CLOSE''"
| "TokenType_name PARENTHESIS_OPEN = ''PARENTHESIS_OPEN''"
| "TokenType_name PARENTHESIS_CLOSE = ''PARENTHESIS_CLOSE''"
| "TokenType_name COLON = ''COLON''"
| "TokenType_name COMMA = ''COMMA''"
| "TokenType_name PERIOD = ''PERIOD''"
| "TokenType_name EQUAL = ''EQUAL''"
| "TokenType_name COLOR = ''COLOR''"
| "TokenType_name STRING_NAME = ''STRING_NAME''"
| "TokenType_name STRING = ''STRING''"
| "TokenType_name NUMBER = ''NUMBER''"
| "TokenType_name IDENTIFIER = ''IDENTIFIER''"
| "TokenType_name ARRAY = ''ARRAY''"
| "TokenType_name ERROR = ''ERROR''"
| "TokenType_name EOF = ''EOF''"

text \<open>Field access on a value returned by \<^verbatim>\<open>praseValue\<close>; a token has no \<^verbatim>\<open>name\<close>.\<close>

fun p_type :: "pvalue \<Rightarrow> jsval" where
  "p_type (PTok t) = VStr (TokenType_name (ttype t))"
| "p_type (NodeProperty ty nm v tx ln) = ty"

fun p_name :: "pvalue \<Rightarrow> jsval" where
  "p_name (PTok t) = VUndefined"
| "p_name (NodeProperty ty nm v tx ln) = nm"

fun p_value :: "pvalue \<Rightarrow> jsval" where
  "p_value (PTok t) = tvalue t"
| "p_value (NodeProperty ty nm v tx ln) = v"

fun p_text :: "pvalue \<Rightarrow> string" where
  "p_text (PTok t) = ttext t"
| "p_text (NodeProperty ty nm v tx ln) = tx"

fun p_line :: "pvalue \<Rightarrow> nat" where
  "p_line (PTok t) = tline t"
| "p_line (NodeProperty ty nm v tx ln) = ln"

section \<open>The patterns of the lexer rules\<close>

definition is_space :: "char \<Rightarrow> bool" where
  "is_space c = (c \<in> set [CHR '' '', CHR 0x09, CHR 0x0D, CHR 0x0A])"

definition is_line_terminator :: "char \<Rightarrow> bool" where
  "is_line_terminator c = (c \<in> set [CHR 0x0A, CHR 0x0D])"

definition is_digit :: "char \<Rightarrow> bool" where
  "is_digit c = (c \<in> set ''0123456789'')"

definition is_hex :: "char \<Rightarrow> bool" where
  "is_hex c = (c \<in> set ''0123456789abcdefABCDEF'')"

definition is_ident_start :: "char \<Rightarrow> bool" where
  "is_ident_start c =
     (c \<in> set ''abcdefghijklmnopqrstuvwxyzABCDEFGHIJKLMNOPQRSTUVWXYZ_'')"

definition is_ident_char :: "char \<Rightarrow> bool" where
  "is_ident_char c = (is_ident_start c \<or> is_digit c \<or> c = CHR ''/'')"

text \<open>
  A match is \<^verbatim>\<open>match[0]\<close> followed by the capture groups (\<open>None\<close> for a group that did
  not take part). Every pattern is tried at the current offset only, so a matcher gets
  the rest of the input from that offset.
\<close>

type_synonym rmatch = "string \<times> string option list"

text \<open>\<^verbatim>\<open>/[ \t\r\n]+/\<close>\<close>

definition match_whitespace :: "string \<Rightarrow> rmatch option" where
  "match_whitespace s =
     (let m = takeWhile is_space s in if m = [] then None else Some (m, []))"

text \<open>\<^verbatim>\<open>/;.*/\<close>\<close>

definition match_comment :: "string \<Rightarrow> rmatch option" where
  "match_comment s =
     (case s of
        [] \<Rightarrow> None
      | c # cs \<Rightarrow>
          if c = CHR 0x3B
          then Some (c # takeWhile (\<lambda>d. \<not> is_line_terminator d) cs, [])
          else None)"

text \<open>\<^verbatim>\<open>/\(([^)]+)\)/\<close>\<close>

definition match_arguments :: "string \<Rightarrow> rmatch option" where
  "match_arguments s =
     (case s of
        [] \<Rightarrow> None
      | c # cs \<Rightarrow>
          if c = CHR ''(''
          then (let body = takeWhile (\<lambda>d. d \<noteq> CHR '')'') cs;
                    rest = dropWhile (\<lambda>d. d \<noteq> CHR '')'') cs
                in if body \<noteq> [] \<and> rest \<noteq> []
                   then Some (c # body @ [CHR '')''], [Some body])
                   else None)
          else None)"

text \<open>\<^verbatim>\<open>/[{}[\]()]/\<close> and \<^verbatim>\<open>/[:,=.]/\<close>\<close>

definition match_one_of :: "string \<Rightarrow> string \<Rightarrow> rmatch option" where
  "match_one_of cls s =
     (case s of
        [] \<Rightarrow> None
      | c # cs \<Rightarrow> if c \<in> set cls then Some ([c], []) else None)"

text \<open>\<^verbatim>\<open>/#[0-9a-fA-F]+/\<close>\<close>

definition match_color :: "string \<Rightarrow> rmatch option" where
  "match_color s =
     (case s of
        [] \<Rightarrow> None
      | c # cs \<Rightarrow>
          if c = CHR ''#'' \<and> takeWhile is_hex cs \<noteq> []
          then Some (c # takeWhile is_hex cs, [])
          else None)"

text \<open>
  \<^verbatim>\<open>(?:\\.|[^"\\])*"\<close>: the body of a quoted string up to its closing quote. The body
  is returned as written; \<open>None\<close> when no closing quote is reached.
\<close>

fun string_body :: "string \<Rightarrow> string option" where
  "string_body [] = None"
| "string_body [c] = (if c = CHR 0x22 then Some [] else None)"
| "string_body (c # d # ds) =
     (if c = CHR 0x22 then Some []
      else if c = CHR 0x5C
      then (if is_line_terminator d then None
            else map_option (\<lambda>b. c # d # b) (string_body ds))
      else map_option (\<lambda>b. c # b) (string_body (d # ds)))"

text \<open>\<^verbatim>\<open>/"((?:\\.|[^"\\])*)"|&"((?:\\.|[^"\\])*)"/\<close>\<close>

definition match_string :: "string \<Rightarrow> rmatch option" where
  "match_string s =
     (case s of
        [] \<Rightarrow> None
      | c # cs \<Rightarrow>
          if c = CHR 0x22
          then map_option (\<lambda>b. (c # b @ [CHR 0x22], [Some b, None])) (string_body cs)
          else if c = CHR ''&''
          then (case cs of
                  [] \<Rightarrow> None
                | q # qs \<Rightarrow>
                    if q = CHR 0x22
                    then map_option (\<lambda>b. (c # q # b @ [CHR 0x22], [None, Some b]))
                           (string_body qs)
                    else None)
          else None)"

text \<open>\<^verbatim>\<open>/[+-]?(?:\d+\.?\d*|\.\d+)(?:[eE][+-]?\d+)?/\<close>, in three parts.\<close>

definition number_sign :: "string \<Rightarrow> string" where
  "number_sign s =
     (case s of [] \<Rightarrow> [] | c # cs \<Rightarrow> if c = CHR ''+'' \<or> c = CHR ''-'' then [c] else [])"

definition number_mantissa :: "string \<Rightarrow> string option" where
  "number_mantissa s =
     (let ds = takeWhile is_digit s; r = dropWhile is_digit s
      in if ds \<noteq> []
         then (case r of
                 [] \<Rightarrow> Some ds
               | c # cs \<Rightarrow>
                   if c = CHR ''.'' then Some (ds @ c # takeWhile is_digit cs) else Some ds)
         else (case s of
                 [] \<Rightarrow> None
               | c # cs \<Rightarrow>
                   if c = CHR ''.'' \<and> takeWhile is_digit cs \<noteq> []
                   then Some (c # takeWhile is_digit cs)
                   else None))"

definition number_exponent :: "string \<Rightarrow> string" where
  "number_exponent s =
     (case s of
        [] \<Rightarrow> []
      | c # cs \<Rightarrow>
          if c = CHR ''e'' \<or> c = CHR ''E''
          then (let sg = number_sign cs; ds = takeWhile is_digit (drop (length sg) cs)
                in if ds \<noteq> [] then c # sg @ ds else [])
          else [])"

definition match_number :: "string \<Rightarrow> rmatch option" where
  "match_number s =
     (let sg = number_sign s
      in case number_mantissa (drop (length sg) s) of
           None \<Rightarrow> None
         | Some m \<Rightarrow>
             Some (sg @ m @ number_exponent (drop (length sg + length m) s), []))"

text \<open>\<^verbatim>\<open>/[a-zA-Z_][a-zA-Z0-9_\/]*/\<close>\<close>

definition match_identifier :: "string \<Rightarrow> rmatch option" where
  "match_identifier s =
     (case s of
        [] \<Rightarrow> None
      | c # cs \<Rightarrow>
          if is_ident_start c then Some (c # takeWhile is_ident_char cs, []) else None)"

text \<open>\<^verbatim>\<open>/./\<close>: the patterns carry no \<^verbatim>\<open>s\<close> flag, so the dot leaves out line terminators.\<close>

definition match_any :: "string \<Rightarrow> rmatch option" where
  "match_any s =
     (case s of
        [] \<Rightarrow> None
      | c # cs \<Rightarrow> if is_line_terminator c then None else Some ([c], []))"

section \<open>The actions of the lexer rules\<close>

text \<open>\<^verbatim>\<open>String.prototype.trim\<close>, \<^verbatim>\<open>split(',')\<close> and \<^verbatim>\<open>slice(1, -1)\<close>.\<close>

definition is_js_whitespace :: "char \<Rightarrow> bool" where
  "is_js_whitespace c =
     (c \<in> set [CHR 0x09, CHR 0x0A, CHR 0x0B, CHR 0x0C, CHR 0x0D, CHR 0x20, CHR 0xA0])"

definition trim :: "string \<Rightarrow> string" where
  "trim s = rev (dropWhile is_js_whitespace (rev (dropWhile is_js_whitespace s)))"

fun split :: "char \<Rightarrow> string \<Rightarrow> string list" where
  "split sep [] = [[]]"
| "split sep (c # cs) =
     (if c = sep then [] # split sep cs
      else (case split sep cs of
              [] \<Rightarrow> [[c]]
            | w # ws \<Rightarrow> (c # w) # ws))"

definition slice_1_m1 :: "string \<Rightarrow> string" where
  "slice_1_m1 s = butlast (tl s)"

definition startsWith :: "string \<Rightarrow> char \<Rightarrow> bool" where
  "startsWith s c = (case s of [] \<Rightarrow> False | d # ds \<Rightarrow> d = c)"

definition endsWith :: "string \<Rightarrow> char \<Rightarrow> bool" where
  "endsWith s c = (s \<noteq> [] \<and> last s = c)"

text \<open>
  \<^verbatim>\<open>Number(value)\<close> on a string: the text is a numeric literal (empty after trimming,
  a signed decimal literal or \<^verbatim>\<open>Infinity\<close>, or an unsigned hexadecimal, octal or binary
  literal) or the result is \<^verbatim>\<open>NaN\<close>.
\<close>

definition is_radix_literal :: "string \<Rightarrow> bool" where
  "is_radix_literal s =
     (case s of
        z # x # d # ds \<Rightarrow>
          z = CHR ''0'' \<and>
          ((x \<in> set ''xX'' \<and> (\<forall>c \<in> set (d # ds). is_hex c)) \<or>
           (x \<in> set ''oO'' \<and> (\<forall>c \<in> set (d # ds). c \<in> set ''01234567'')) \<or>
           (x \<in> set ''bB'' \<and> (\<forall>c \<in> set (d # ds). c \<in> set ''01'')))
      | _ \<Rightarrow> False)"

definition Number :: "string \<Rightarrow> jsval" where
  "Number v =
     (let s = trim v
      in if s = [] then VNum ''0''
         else if s \<in> set [''Infinity'', ''+Infinity'', ''-Infinity''] then VNum s
         else if map_option fst (match_number s) = Some s then VNum s
         else if is_radix_literal s then VNum s
         else VNaN)"

datatype action = Ignore | Accept TokenType jsval

text \<open>A rule is a pattern with its action; \<^verbatim>\<open>ctx.accept(type)\<close> takes \<^verbatim>\<open>match[0]\<close> as value.\<close>

type_synonym rule = "(string \<Rightarrow> rmatch option) \<times> (rmatch \<Rightarrow> action)"

definition group :: "rmatch \<Rightarrow> nat \<Rightarrow> string option" where
  "group m i = (if i < Suc (length (snd m))
                then (if i = 0 then Some (fst m) else snd m ! (i - 1))
                else None)"

definition arguments_action :: "rmatch \<Rightarrow> action" where
  "arguments_action m =
     (let result = (case group m 1 of None \<Rightarrow> [] | Some r \<Rightarrow> r);
          values = map (\<lambda>value0.
                     let value = trim value0
                     in if startsWith value (CHR 0x22) \<and> endsWith value (CHR 0x22)
                        then VStr (slice_1_m1 value)
                        else Number value) (split (CHR '','') result)
      in Accept ARRAY (VList values))"

definition structural_action :: "rmatch \<Rightarrow> action" where
  "structural_action m =
     (let c = fst m
      in if c = ''{'' then Accept CURLY_BRACKET_OPEN (VStr c)
         else if c = ''}'' then Accept CURLY_BRACKET_CLOSE (VStr c)
         else if c = ''['' then Accept BRACKET_OPEN (VStr c)
         else if c = '']'' then Accept BRACKET_CLOSE (VStr c)
         else if c = ''('' then Accept PARENTHESIS_OPEN (VStr c)
         else Accept PARENTHESIS_CLOSE (VStr c))"

definition punctuation_action :: "rmatch \<Rightarrow> action" where
  "punctuation_action m =
     (let c = fst m
      in if c = '':'' then Accept COLON (VStr c)
         else if c = '','' then Accept COMMA (VStr c)
         else if c = ''.'' then Accept PERIOD (VStr c)
         else Accept EQUAL (VStr c))"

definition escapes :: "char \<Rightarrow> char" where
  "escapes c =
     (if c = CHR ''b'' then CHR 0x08
      else if c = CHR ''t'' then CHR 0x09
      else if c = CHR ''n'' then CHR 0x0A
      else if c = CHR ''f'' then CHR 0x0C
      else if c = CHR ''r'' then CHR 0x0D
      else c)"

text \<open>\<^verbatim>\<open>replace(/\\(.)/g, ...)\<close>\<close>

fun unescape :: "string \<Rightarrow> string" where
  "unescape [] = []"
| "unescape [c] = [c]"
| "unescape (c # d # ds) =
     (if c = CHR 0x5C \<and> \<not> is_line_terminator d then escapes d # unescape ds
      else c # unescape (d # ds))"

definition string_action :: "rmatch \<Rightarrow> action" where
  "string_action m =
     (let body = (case group m 1 of
                    Some b \<Rightarrow> if b \<noteq> [] then b
                              else (case group m 2 of Some b2 \<Rightarrow> b2 | None \<Rightarrow> [])
                  | None \<Rightarrow> (case group m 2 of Some b2 \<Rightarrow> b2 | None \<Rightarrow> []));
          value = unescape body
      in Accept (if startsWith (fst m) (CHR ''&'') then STRING_NAME else STRING) (VStr value))"

definition identifier_action :: "rmatch \<Rightarrow> action" where
  "identifier_action m =
     (if fst m = ''true'' then Accept IDENTIFIER (VBool True)
      else if fst m = ''false'' then Accept IDENTIFIER (VBool False)
      else Accept IDENTIFIER (VStr (fst m)))"

definition rules :: "rule list" where
  "rules =
     [(match_whitespace, \<lambda>m. Ignore),
      (match_comment, \<lambda>m. Ignore),
      (match_arguments, arguments_action),
      (match_one_of ''{}[]()'', structural_action),
      (match_one_of '':,=.'', punctuation_action),
      (match_color, \<lambda>m. Accept COLOR (VStr (fst m))),
      (match_string, string_action),
      (match_number, \<lambda>m. Accept NUMBER (VNum (fst m))),
      (match_identifier, identifier_action),
      (match_any, \<lambda>m. Accept ERROR (VStr (''Unexpected character: '' @ fst m)))]"

section \<open>The tokenizer\<close>

record lexer =
  lx_input :: string
  lx_pos :: nat
  lx_line :: nat
  lx_column :: nat
  lx_pending :: "jsval token list"
  lx_eof :: bool

datatype error =
    LexError nat nat nat
  | UnexpectedToken TokenType "jsval token"
  | NotEnoughTokens
  | TypeError string

text \<open>
  Modelled from the spec: the position tracking of the base class \<^verbatim>\<open>Tokenizr\<close> (package
  \<^verbatim>\<open>tokenizr\<close>, not under src/), which the spec gives as offset, line and column with
  column 1 at the start of a line. A line feed starts a new line at column 1, a carriage
  return goes back to column 1, a tab moves to the next tab stop, and any other
  character advances the column by one.
\<close>

fun progress_chars :: "string \<Rightarrow> nat \<times> nat \<Rightarrow> nat \<times> nat" where
  "progress_chars [] lc = lc"
| "progress_chars (c # cs) (ln, col) =
     progress_chars cs
       (if c = CHR 0x0D then (ln, 1)
        else if c = CHR 0x0A then (Suc ln, 1)
        else if c = CHR 0x09 then (ln, col + (8 - col mod 8))
        else (ln, Suc col))"

definition progress :: "lexer \<Rightarrow> nat \<Rightarrow> nat \<Rightarrow> lexer" where
  "progress l from until =
     (let lc = progress_chars (take (until - from) (drop from (lx_input l)))
                 (lx_line l, lx_column l)
      in l\<lparr>lx_line := fst lc, lx_column := snd lc\<rparr>)"

definition finish :: "lexer \<Rightarrow> lexer" where
  "finish l =
     (if \<not> lx_eof l
      then l\<lparr>lx_eof := True,
             lx_pending := lx_pending l @
               [Token EOF (VStr []) [] (lx_pos l) (lx_line l) (lx_column l)]\<rparr>
      else l)"

definition matchPattern :: "(string \<Rightarrow> rmatch option) \<Rightarrow> lexer \<Rightarrow> rmatch option" where
  "matchPattern pattern l = pattern (drop (lx_pos l) (lx_input l))"

text \<open>
  \<^verbatim>\<open>_processRule\<close>: the action runs; an ignored match moves the position and reports
  whether the input is used up; an accepted one queues the token, moves the position,
  finishes at the end of the input and reports \<open>True\<close>.
\<close>

definition processRule :: "rule \<Rightarrow> rmatch \<Rightarrow> lexer \<Rightarrow> bool \<times> lexer" where
  "processRule r found l =
     (let lastIndex = lx_pos l + length (fst found)
      in case snd r found of
           Ignore \<Rightarrow>
             (let l1 = (progress l (lx_pos l) lastIndex)\<lparr>lx_pos := lastIndex\<rparr>
              in (lx_pos l1 \<ge> length (lx_input l1), l1))
         | Accept ty v \<Rightarrow>
             (let l1 = l\<lparr>lx_pending := lx_pending l @
                          [Token ty v (fst found) (lx_pos l) (lx_line l) (lx_column l)]\<rparr>;
                  l2 = (progress l1 (lx_pos l1) lastIndex)\<lparr>lx_pos := lastIndex\<rparr>
              in (True, if lx_pos l2 \<ge> length (lx_input l2) then finish l2 else l2)))"

text \<open>
  The loop over the rules in \<^verbatim>\<open>_tokenize\<close>: after a rule whose match was ignored the
  loop goes on with the rules that follow it, at the new position.
\<close>

fun tokenize_rules :: "rule list \<Rightarrow> lexer \<Rightarrow> error + lexer" where
  "tokenize_rules [] l = Inl (LexError (lx_pos l) (lx_line l) (lx_column l))"
| "tokenize_rules (r # rs) l =
     (case matchPattern (fst r) l of
        None \<Rightarrow> tokenize_rules rs l
      | Some found \<Rightarrow>
          (case processRule r found l of
             (True, l') \<Rightarrow> Inr l'
           | (False, l') \<Rightarrow> tokenize_rules rs l'))"

definition tokenize :: "lexer \<Rightarrow> error + lexer" where
  "tokenize l =
     (if lx_pos l \<ge> length (lx_input l) then Inr (finish l)
      else tokenize_rules rules l)"

section \<open>The operations of the base tokenizer\<close>

datatype 'a result = Ok 'a | Throw error | OutOfFuel

definition and_then :: "'a result \<Rightarrow> ('a \<Rightarrow> 'b result) \<Rightarrow> 'b result" where
  "and_then r f = (case r of Ok x \<Rightarrow> f x | Throw e \<Rightarrow> Throw e | OutOfFuel \<Rightarrow> OutOfFuel)"

text \<open>
  Modelled from the spec: \<^verbatim>\<open>input\<close> of the base class \<^verbatim>\<open>Tokenizr\<close> (package \<^verbatim>\<open>tokenizr\<close>,
  not under src/). Each parse consumes a full text buffer: the shared lexer is reset
  to the start of the new text, whatever an earlier parse left in it.
\<close>

definition input_lexer :: "lexer \<Rightarrow> string \<Rightarrow> lexer" where
  "input_lexer l text =
     l\<lparr>lx_input := text, lx_pos := 0, lx_line := 1, lx_column := 1,
       lx_pending := [], lx_eof := False\<rparr>"

text \<open>
  Modelled from the spec: \<^verbatim>\<open>peek\<close>, \<^verbatim>\<open>token\<close> and \<^verbatim>\<open>consume\<close> of the base class (not
  under src/). Tokens are produced on demand: when none is pending, \<^verbatim>\<open>_tokenize\<close> is
  called; whitespace and comments are discarded and the stream ends on the
  end-of-input token, so when the call has ignored the rest of the input and queued
  nothing, \<^verbatim>\<open>_tokenize\<close> is called again and queues the end-of-input token.
  \<^verbatim>\<open>peek\<close> returns the next token without consuming it, \<^verbatim>\<open>token\<close> consumes it
  (\<open>None\<close> when there is none), and \<^verbatim>\<open>consume\<close> consumes it and fails with
  \<open>UnexpectedToken\<close>, carrying the expected kind and the token found with its position,
  when the kind does not match.
\<close>

definition fill :: "lexer \<Rightarrow> lexer result" where
  "fill l =
     (if lx_pending l = []
      then (case tokenize l of
              Inl e \<Rightarrow> Throw e
            | Inr l1 \<Rightarrow>
                if lx_pending l1 = []
                then (case tokenize l1 of Inl e \<Rightarrow> Throw e | Inr l2 \<Rightarrow> Ok l2)
                else Ok l1)
      else Ok l)"

definition peek :: "lexer \<Rightarrow> (jsval token \<times> lexer) result" where
  "peek l =
     and_then (fill l) (\<lambda>l'.
       case lx_pending l' of
         [] \<Rightarrow> Throw NotEnoughTokens
       | t # ts \<Rightarrow> Ok (t, l'))"

definition token :: "lexer \<Rightarrow> (jsval token option \<times> lexer) result" where
  "token l =
     and_then (fill l) (\<lambda>l'.
       case lx_pending l' of
         [] \<Rightarrow> Ok (None, l')
       | t # ts \<Rightarrow> Ok (Some t, l'\<lparr>lx_pending := ts\<rparr>))"

definition consume :: "TokenType \<Rightarrow> lexer \<Rightarrow> (jsval token \<times> lexer) result" where
  "consume ty l =
     and_then (fill l) (\<lambda>l'.
       case lx_pending l' of
         [] \<Rightarrow> Throw NotEnoughTokens
       | t # ts \<Rightarrow>
           if ttype t = ty then Ok (t, l'\<lparr>lx_pending := ts\<rparr>)
           else Throw (UnexpectedToken ty t))"

text \<open>
  Modelled from the spec: \<^verbatim>\<open>alternatives\<close> of the base class (not under src/). Trying an
  alternative means: save the lexer position, attempt the sub-parse, restore the
  position and try the next alternative on failure; fail overall if all alternatives
  fail (here with the error of the first one).
\<close>

fun alternatives ::
  "(lexer \<Rightarrow> 'a result) \<Rightarrow> (lexer \<Rightarrow> 'a result) list \<Rightarrow> lexer \<Rightarrow> 'a result" where
  "alternatives f [] l = f l"
| "alternatives f (g # gs) l =
     (case f l of
        Throw e \<Rightarrow>
          (case alternatives g gs l of
             Throw e' \<Rightarrow> Throw e
           | r \<Rightarrow> r)
      | r \<Rightarrow> r)"

section \<open>The value parser\<close>

text \<open>
  Conversion to a string, as in a template literal, \<^verbatim>\<open>Array.prototype.join\<close> or a
  property key. The text of a number is given by the parameter \<open>nts\<close>, the decimal
  text JavaScript prints for the double that a numeric text denotes.
\<close>

fun join :: "string \<Rightarrow> string list \<Rightarrow> string" where
  "join sep [] = []"
| "join sep [x] = x"
| "join sep (x # y # ys) = x @ sep @ join sep (y # ys)"

text \<open>A natural number in decimal digits.\<close>

fun decimal_digits :: "nat \<Rightarrow> nat \<Rightarrow> string" where
  "decimal_digits 0 n = [''0123456789'' ! (n mod 10)]"
| "decimal_digits (Suc k) n =
     (if n < 10 then [''0123456789'' ! n]
      else decimal_digits k (n div 10) @ [''0123456789'' ! (n mod 10)])"

definition decimal :: "nat \<Rightarrow> string" where
  "decimal n = decimal_digits n n"

text \<open>\<^verbatim>\<open>JSON.stringify\<close> on a string: the text in quotes, with its escapes.\<close>

definition json_char :: "char \<Rightarrow> string" where
  "json_char c =
     (if c = CHR 0x22 then [CHR 0x5C, CHR 0x22]
      else if c = CHR 0x5C then [CHR 0x5C, CHR 0x5C]
      else if c = CHR 0x08 then [CHR 0x5C, CHR ''b'']
      else if c = CHR 0x0C then [CHR 0x5C, CHR ''f'']
      else if c = CHR 0x0A then [CHR 0x5C, CHR ''n'']
      else if c = CHR 0x0D then [CHR 0x5C, CHR ''r'']
      else if c = CHR 0x09 then [CHR 0x5C, CHR ''t'']
      else if of_char c < (32 :: nat)
      then [CHR 0x5C, CHR ''u'', CHR ''0'', CHR ''0'',
            ''0123456789abcdef'' ! (of_char c div 16), ''0123456789abcdef'' ! (of_char c mod 16)]
      else [c])"

definition json_string :: "string \<Rightarrow> string" where
  "json_string s = [CHR 0x22] @ concat (map json_char s) @ [CHR 0x22]"

text \<open>
  \<^verbatim>\<open>JSON.stringify\<close> on the value of a token: a string, a number (\<^verbatim>\<open>null\<close> when it is
  not finite), a boolean, or the array of an ARRAY token. The lexer gives a token no
  other value.
\<close>

fun json_value :: "(string \<Rightarrow> string) \<Rightarrow> jsval \<Rightarrow> string" where
  "json_value nts (VStr s) = json_string s"
| "json_value nts (VNum s) =
     (if nts s \<in> set [''Infinity'', ''-Infinity'', ''NaN''] then ''null'' else nts s)"
| "json_value nts VNaN = ''null''"
| "json_value nts (VBool b) = (if b then ''true'' else ''false'')"
| "json_value nts (VList xs) = ''['' @ join '','' (map (json_value nts) xs) @ '']''"
| "json_value nts VUndefined = ''undefined''"
| "json_value nts v = ''null''"

text \<open>
  Modelled from the spec: \<^verbatim>\<open>toString\<close> of the class \<^verbatim>\<open>Token\<close> of the package \<^verbatim>\<open>tokenizr\<close>
  (not under src/). The spec gives a token its kind, value, text and position; the
  method prints them in this order, the value and the text as JSON.
\<close>

definition Token_toString :: "(string \<Rightarrow> string) \<Rightarrow> jsval token \<Rightarrow> string" where
  "Token_toString nts t =
     TokenType_name (ttype t) @ '' (value: '' @ json_value nts (tvalue t) @
     '', text: '' @ json_string (ttext t) @ '', pos: '' @ decimal (tpos t) @
     '', line: '' @ decimal (tline t) @ '', column: '' @ decimal (tcolumn t) @ '')''"

text \<open>
  An element of the array that \<^verbatim>\<open>parseArray\<close> builds is a token, which has its own
  \<^verbatim>\<open>toString\<close>, or an object literal, which prints as any object does.
\<close>

fun pvalue_toString :: "(string \<Rightarrow> string) \<Rightarrow> pvalue \<Rightarrow> string" where
  "pvalue_toString nts (PTok t) = Token_toString nts t"
| "pvalue_toString nts (NodeProperty ty nm v tx ln) = ''[object Object]''"

fun toString :: "(string \<Rightarrow> string) \<Rightarrow> jsval \<Rightarrow> string" where
  "toString nts VUndefined = ''undefined''"
| "toString nts (VStr s) = s"
| "toString nts (VNum s) = nts s"
| "toString nts VNaN = ''NaN''"
| "toString nts (VBool b) = (if b then ''true'' else ''false'')"
| "toString nts (VList xs) =
     join '','' (map (\<lambda>x. if x = VUndefined then [] else toString nts x) xs)"
| "toString nts (VArr ps) = join '','' (map (pvalue_toString nts) ps)"
| "toString nts (VDict kvs) = ''[object Map]''"
| "toString nts (VObj p) = pvalue_toString nts p"

text \<open>\<^verbatim>\<open>a ?? b\<close>\<close>

definition nullish :: "jsval \<Rightarrow> jsval \<Rightarrow> jsval" where
  "nullish a b = (if a = VUndefined then b else a)"

definition parsePrimitive :: "lexer \<Rightarrow> (jsval token \<times> lexer) result" where
  "parsePrimitive l =
     alternatives (consume NUMBER)
       [consume STRING, consume STRING_NAME, consume COLOR, consume IDENTIFIER] l"

definition parseConstruct :: "lexer \<Rightarrow> (pvalue \<times> lexer) result" where
  "parseConstruct l =
     and_then (consume IDENTIFIER l) (\<lambda>(tok, l1).
     and_then (consume ARRAY l1) (\<lambda>(array, l2).
       Ok (NodeProperty (nullish (tvalue tok) (VStr ''CONSTRUCT'')) (tvalue tok)
             (tvalue array) (ttext tok @ ttext array) (tline tok), l2)))"

text \<open>
  The loop of \<^verbatim>\<open>parseArray\<close>. The recursive call \<^verbatim>\<open>this.praseValue()\<close> is the parameter
  \<open>pv\<close>; the fuel bounds the number of iterations.
\<close>

fun parseArray_loop ::
  "(lexer \<Rightarrow> (pvalue \<times> lexer) result) \<Rightarrow> nat \<Rightarrow> lexer \<Rightarrow> pvalue list
     \<Rightarrow> (pvalue list \<times> lexer) result" where
  "parseArray_loop pv 0 l array = OutOfFuel"
| "parseArray_loop pv (Suc k) l array =
     and_then (peek l) (\<lambda>(t, l1).
       if ttype t = BRACKET_CLOSE then Ok (array, l1)
       else if ttype t = COMMA
       then and_then (token l1) (\<lambda>(u, l2). parseArray_loop pv k l2 array)
       else and_then (pv l1) (\<lambda>(v, l2). parseArray_loop pv k l2 (array @ [v])))"

definition parseArray ::
  "(lexer \<Rightarrow> (pvalue \<times> lexer) result) \<Rightarrow> nat \<Rightarrow> lexer \<Rightarrow> (pvalue \<times> lexer) result" where
  "parseArray pv k l =
     and_then (consume BRACKET_OPEN l) (\<lambda>(tok, l1).
     and_then (parseArray_loop pv k l1 []) (\<lambda>(array, l2).
     and_then (consume BRACKET_CLOSE l2) (\<lambda>(c, l3).
       let text = join '', '' (map p_text array)
       in Ok (NodeProperty (VStr ''ARRAY'') VUndefined (VArr array)
                (''['' @ text @ '']'') (tline tok), l3))))"

text \<open>
  Setting a key of an object or of a map whose keys are compared as they are written: a
  key already present keeps its place.
\<close>

fun map_set :: "'k \<Rightarrow> 'v \<Rightarrow> ('k \<times> 'v) list \<Rightarrow> ('k \<times> 'v) list" where
  "map_set k v [] = [(k, v)]"
| "map_set k v (p # ps) = (if fst p = k then (k, v) # ps else p # map_set k v ps)"

text \<open>
  The keys of a \<^verbatim>\<open>Map\<close> are compared as values: two numbers are the same key when they
  are the same double, that is, when JavaScript prints them alike (the two zeros print
  alike, and are the same key).
\<close>

fun same_value_zero :: "(string \<Rightarrow> string) \<Rightarrow> jsval \<Rightarrow> jsval \<Rightarrow> bool" where
  "same_value_zero nts (VNum s) (VNum t) = (nts s = nts t)"
| "same_value_zero nts a b = (a = b)"

text \<open>
  \<^verbatim>\<open>dictionary.set(key.value, value)\<close>: the key is the value of a primitive token; a key
  already present keeps its place and gets the new value.
\<close>

fun dictionary_set ::
  "(string \<Rightarrow> string) \<Rightarrow> jsval \<Rightarrow> pvalue \<Rightarrow> (jsval \<times> pvalue) list \<Rightarrow> (jsval \<times> pvalue) list" where
  "dictionary_set nts k v [] = [(k, v)]"
| "dictionary_set nts k v (p # ps) =
     (if same_value_zero nts (fst p) k then (fst p, v) # ps
      else p # dictionary_set nts k v ps)"

fun parseDictionary_loop ::
  "(string \<Rightarrow> string) \<Rightarrow> (lexer \<Rightarrow> (pvalue \<times> lexer) result) \<Rightarrow> nat \<Rightarrow> lexer
     \<Rightarrow> (jsval \<times> pvalue) list \<Rightarrow> ((jsval \<times> pvalue) list \<times> lexer) result" where
  "parseDictionary_loop nts pv 0 l dictionary = OutOfFuel"
| "parseDictionary_loop nts pv (Suc k) l dictionary =
     and_then (peek l) (\<lambda>(t, l1).
       if ttype t = CURLY_BRACKET_CLOSE then Ok (dictionary, l1)
       else if ttype t = COMMA
       then and_then (token l1) (\<lambda>(u, l2). parseDictionary_loop nts pv k l2 dictionary)
       else and_then (parsePrimitive l1) (\<lambda>(key, l2).
            and_then (consume COLON l2) (\<lambda>(c, l3).
            and_then (pv l3) (\<lambda>(v, l4).
              parseDictionary_loop nts pv k l4
                (dictionary_set nts (tvalue key) v dictionary)))))"

definition parseDictionary ::
  "(string \<Rightarrow> string) \<Rightarrow> (lexer \<Rightarrow> (pvalue \<times> lexer) result) \<Rightarrow> nat \<Rightarrow> lexer
     \<Rightarrow> (pvalue \<times> lexer) result" where
  "parseDictionary nts pv k l =
     and_then (consume CURLY_BRACKET_OPEN l) (\<lambda>(tok, l1).
     and_then (parseDictionary_loop nts pv k l1 []) (\<lambda>(dictionary, l2).
     and_then (consume CURLY_BRACKET_CLOSE l2) (\<lambda>(c, l3).
       let text = join '','' (map (\<lambda>kv. [CHR 0x22] @ toString nts (fst kv) @ [CHR 0x22])
                               dictionary)
       in Ok (NodeProperty (VStr ''DICTIONARY'') VUndefined (VDict dictionary)
                (''{'' @ text @ ''}'') (tline tok), l3))))"

text \<open>
  \<^verbatim>\<open>praseValue\<close>: the four alternatives in the order of the source. The fuel bounds the
  depth of the recursion and the iterations of the loops below it.
\<close>

primrec praseValue :: "(string \<Rightarrow> string) \<Rightarrow> nat \<Rightarrow> lexer \<Rightarrow> (pvalue \<times> lexer) result" where
  "praseValue nts 0 l = OutOfFuel"
| "praseValue nts (Suc n) l =
     alternatives parseConstruct
       [\<lambda>l'. and_then (parsePrimitive l') (\<lambda>(t, l1). Ok (PTok t, l1)),
        parseArray (praseValue nts n) n,
        parseDictionary nts (praseValue nts n) n] l"

definition parseProperty ::
  "(string \<Rightarrow> string) \<Rightarrow> nat \<Rightarrow> lexer \<Rightarrow> (pvalue \<times> lexer) result" where
  "parseProperty nts n l =
     and_then (consume IDENTIFIER l) (\<lambda>(tok, l1).
     and_then (consume EQUAL l1) (\<lambda>(e, l2).
     and_then (praseValue nts n l2) (\<lambda>(v, l3).
       Ok (NodeProperty (p_type v) (tvalue tok) (p_value v)
             (ttext tok @ ''='' @ p_text v) (tline tok), l3))))"

section \<open>The tag parser\<close>

record Tag =
  tag_name :: jsval
  tag_line :: nat
  tag_pos :: nat
  tag_text :: string
  tag_fields :: "(string \<times> jsval) list"

text \<open>
  \<^verbatim>\<open>addField\<close> and \<^verbatim>\<open>getField\<close> on the field object of a tag. An assignment to the key
  \<^verbatim>\<open>__proto__\<close> creates no field; none of the keys that the scene builder reads is
  inherited by an object.
\<close>

definition addField :: "string \<Rightarrow> jsval \<Rightarrow> Tag \<Rightarrow> Tag" where
  "addField key v tag =
     (if key = ''__proto__'' then tag
      else tag\<lparr>tag_fields := map_set key v (tag_fields tag)\<rparr>)"

definition getField :: "Tag \<Rightarrow> string \<Rightarrow> jsval" where
  "getField tag key = (case map_of (tag_fields tag) key of None \<Rightarrow> VUndefined | Some v \<Rightarrow> v)"

fun parseTag_loop ::
  "(string \<Rightarrow> string) \<Rightarrow> nat \<Rightarrow> lexer \<Rightarrow> Tag \<Rightarrow> string list
     \<Rightarrow> ((Tag \<times> string list) \<times> lexer) result" where
  "parseTag_loop nts 0 l tag texts = OutOfFuel"
| "parseTag_loop nts (Suc k) l tag texts =
     and_then (peek l) (\<lambda>(t, l1).
       if ttype t \<noteq> BRACKET_CLOSE \<and> ttype t \<noteq> EOF
       then and_then (parseProperty nts k l1) (\<lambda>(field, l2).
              parseTag_loop nts k l2
                (addField (toString nts (p_name field)) (p_value field) tag)
                (texts @ [p_text field]))
       else Ok ((tag, texts), l1))"

text \<open>
  Lines 164 to 172 of \<^verbatim>\<open>parseTag\<close>: the opening bracket and the name of the tag, which
  may go on with a colon or a period and a second identifier.
\<close>

definition parseTag_name ::
  "(string \<Rightarrow> string) \<Rightarrow> lexer \<Rightarrow> ((jsval token \<times> jsval) \<times> lexer) result" where
  "parseTag_name nts l =
     and_then (consume BRACKET_OPEN l) (\<lambda>(tok, l1).
     and_then (consume IDENTIFIER l1) (\<lambda>(ident, l2).
     and_then (peek l2) (\<lambda>(p, l3).
       if ttype p = COLON \<or> ttype p = PERIOD
       then and_then (token l3) (\<lambda>(ty, l4).
            and_then (consume IDENTIFIER l4) (\<lambda>(v, l5).
              Ok ((tok, VStr (toString nts (tvalue ident)
                        @ toString nts (case ty of None \<Rightarrow> VUndefined | Some u \<Rightarrow> tvalue u)
                        @ toString nts (tvalue v))), l5)))
       else Ok ((tok, tvalue ident), l3))))"

text \<open>\<^verbatim>\<open>parseTag\<close>: the name, the fields up to the closing bracket, and the text.\<close>

definition parseTag :: "(string \<Rightarrow> string) \<Rightarrow> nat \<Rightarrow> lexer \<Rightarrow> (Tag \<times> lexer) result" where
  "parseTag nts n l =
     and_then (parseTag_name nts l) (\<lambda>((tok, tagName), l6).
     and_then
       (parseTag_loop nts n l6
          \<lparr>tag_name = tagName, tag_line = tline tok, tag_pos = tpos tok,
           tag_text = [], tag_fields = []\<rparr>
          [toString nts tagName]) (\<lambda>((tag, texts), l7).
     and_then (consume BRACKET_CLOSE l7) (\<lambda>(c, l8).
       Ok (tag\<lparr>tag_text := ''['' @ join '' '' texts @ '']''\<rparr>, l8))))"

section \<open>The scene builder\<close>

record GDResource =
  r_body :: string
  r_path :: jsval
  r_type :: jsval
  r_uid :: jsval
  r_id :: jsval
  r_line :: nat
  r_properties :: "pvalue list option"

text \<open>
  The objects \<^verbatim>\<open>externalResources\<close> and \<^verbatim>\<open>subResources\<close>: their own properties, and the
  resource that an assignment to the key \<^verbatim>\<open>__proto__\<close> has made their prototype.
\<close>

record ResourceObject =
  own :: "(string \<times> GDResource) list"
  proto :: "GDResource option"

definition set_resource :: "string \<Rightarrow> GDResource \<Rightarrow> ResourceObject \<Rightarrow> ResourceObject" where
  "set_resource key r obj =
     (if key = ''__proto__'' then obj\<lparr>proto := Some r\<rparr>
      else obj\<lparr>own := map_set key r (own obj)\<rparr>)"

definition Object_prototype_keys :: "string list" where
  "Object_prototype_keys =
     [''constructor'', ''__defineGetter__'', ''__defineSetter__'', ''hasOwnProperty'',
      ''__lookupGetter__'', ''__lookupSetter__'', ''isPrototypeOf'',
      ''propertyIsEnumerable'', ''toString'', ''valueOf'', ''toLocaleString'']"

text \<open>
  A property of a resource read through the prototype chain, as far as the access
  \<^verbatim>\<open>.path\<close> on it is concerned: \<open>None\<close> when the resource has no such property,
  \<open>Some True\<close> when its value is \<^verbatim>\<open>undefined\<close>, \<open>Some False\<close> for any other value.
\<close>

definition inherited_undefined :: "GDResource \<Rightarrow> string \<Rightarrow> bool option" where
  "inherited_undefined r key =
     (if key = ''body'' \<or> key = ''line'' then Some False
      else if key = ''path'' then Some (r_path r = VUndefined)
      else if key = ''type'' then Some (r_type r = VUndefined)
      else if key = ''uid'' then Some (r_uid r = VUndefined)
      else if key = ''id'' then Some (r_id r = VUndefined)
      else if key = ''properties'' \<and> r_properties r \<noteq> None then Some False
      else None)"

text \<open>
  \<^verbatim>\<open>scene.externalResources[id].path\<close>: a \<open>TypeError\<close> when the object has no property
  for the key, own or inherited, or an inherited one whose value is \<^verbatim>\<open>undefined\<close>.
\<close>

definition resource_path :: "ResourceObject \<Rightarrow> string \<Rightarrow> error + jsval" where
  "resource_path obj key =
     (if key = ''__proto__''
      then (case proto obj of None \<Rightarrow> Inr VUndefined | Some r \<Rightarrow> Inr (r_path r))
      else (case map_of (own obj) key of
              Some r \<Rightarrow> Inr (r_path r)
            | None \<Rightarrow>
                (case (case proto obj of None \<Rightarrow> None | Some r \<Rightarrow> inherited_undefined r key) of
                   Some u \<Rightarrow>
                     if u then Inl (TypeError ''Cannot read properties of undefined'')
                     else Inr VUndefined
                 | None \<Rightarrow>
                     if key \<in> set Object_prototype_keys then Inr VUndefined
                     else Inl (TypeError ''Cannot read properties of undefined''))))"

text \<open>
  The keys of the map \<^verbatim>\<open>nodes\<close>, as the map compares them: a primitive value, a number
  in the text JavaScript prints for it, or an array or map, which is the same key as
  itself only. A path that is an array or a map is the value of the name field of the
  tag of its node, so it is identified by the heap index of that node.
\<close>

datatype node_key = Value jsval | Reference nat

fun is_object :: "jsval \<Rightarrow> bool" where
  "is_object (VList xs) = True"
| "is_object (VArr ps) = True"
| "is_object (VDict kvs) = True"
| "is_object (VObj p) = True"
| "is_object v = False"

fun canonical :: "(string \<Rightarrow> string) \<Rightarrow> jsval \<Rightarrow> jsval" where
  "canonical nts (VNum s) = VNum (nts s)"
| "canonical nts v = v"

text \<open>The key of the path of the node at index \<open>a\<close> of the heap.\<close>

definition path_key :: "(string \<Rightarrow> string) \<Rightarrow> nat \<Rightarrow> jsval \<Rightarrow> node_key" where
  "path_key nts a v = (if is_object v then Reference a else Value (canonical nts v))"

record SceneNode =
  label :: jsval
  className :: jsval
  description :: jsval
  path :: jsval
  relativePath :: jsval
  parent :: jsval
  node_text :: string
  body :: string
  position :: nat
  properties :: "pvalue list"
  unique :: jsval
  resourcePath :: jsval
  contextValue :: "string option"
  hasScript :: bool
  scriptId :: jsval
  children :: "nat list"

text \<open>
  A scene. The nodes are objects shared between \<^verbatim>\<open>root\<close>, the \<^verbatim>\<open>children\<close> arrays and
  the map \<^verbatim>\<open>nodes\<close>: they live in \<open>heap\<close>, in the order of their creation, and are
  referred to by their index there.
\<close>

record Scene =
  s_path :: string
  title :: string
  mtime :: nat
  root :: "nat option"
  externalResources :: ResourceObject
  subResources :: ResourceObject
  nodes :: "(node_key \<times> nat) list"
  heap :: "SceneNode list"

definition new_Scene :: "string \<Rightarrow> string \<Rightarrow> nat \<Rightarrow> Scene" where
  "new_Scene p t m =
     \<lparr>s_path = p, title = t, mtime = m, root = None,
      externalResources = \<lparr>own = [], proto = None\<rparr>,
      subResources = \<lparr>own = [], proto = None\<rparr>,
      nodes = [], heap = []\<rparr>"

text \<open>
  Truthiness. A number is falsy when it is zero, that is, when JavaScript prints it
  as 0.
\<close>

fun truthy :: "(string \<Rightarrow> string) \<Rightarrow> jsval \<Rightarrow> bool" where
  "truthy nts VUndefined = False"
| "truthy nts (VStr s) = (s \<noteq> [])"
| "truthy nts (VNum s) = (nts s \<noteq> ''0'')"
| "truthy nts VNaN = False"
| "truthy nts (VBool b) = b"
| "truthy nts (VList xs) = True"
| "truthy nts (VArr ps) = True"
| "truthy nts (VDict kvs) = True"
| "truthy nts (VObj p) = True"

text \<open>\<^verbatim>\<open>v?.length\<close> and \<^verbatim>\<open>v[0]\<close>\<close>

fun js_length :: "jsval \<Rightarrow> nat option" where
  "js_length (VStr s) = Some (length s)"
| "js_length (VList xs) = Some (length xs)"
| "js_length (VArr ps) = Some (length ps)"
| "js_length v = None"

fun index0 :: "jsval \<Rightarrow> error + jsval" where
  "index0 VUndefined = Inl (TypeError ''Cannot read properties of undefined'')"
| "index0 (VStr s) = Inr (case s of [] \<Rightarrow> VUndefined | c # cs \<Rightarrow> VStr [c])"
| "index0 (VList xs) = Inr (case xs of [] \<Rightarrow> VUndefined | x # ys \<Rightarrow> x)"
| "index0 (VArr ps) = Inr (case ps of [] \<Rightarrow> VUndefined | p # qs \<Rightarrow> VObj p)"
| "index0 v = Inr VUndefined"

text \<open>\<^verbatim>\<open>s.includes(".tscn")\<close> on a string\<close>

fun is_infix :: "string \<Rightarrow> string \<Rightarrow> bool" where
  "is_infix sub [] = (sub = [])"
| "is_infix sub (c # cs) = (take (length sub) (c # cs) = sub \<or> is_infix sub cs)"

text \<open>
  \<^verbatim>\<open>node.resourcePath?.includes(".tscn")\<close>: skipped for \<^verbatim>\<open>undefined\<close>, a substring test on
  a string, a membership test on an array, and a \<open>TypeError\<close> on a value that has no
  method \<^verbatim>\<open>includes\<close>.
\<close>

fun includes_tscn :: "jsval \<Rightarrow> error + bool" where
  "includes_tscn VUndefined = Inr False"
| "includes_tscn (VStr s) = Inr (is_infix ''.tscn'' s)"
| "includes_tscn (VList xs) = Inr (VStr ''.tscn'' \<in> set xs)"
| "includes_tscn (VArr ps) = Inr False"
| "includes_tscn v = Inl (TypeError ''includes is not a function'')"

definition append_context :: "string option \<Rightarrow> string \<Rightarrow> string option" where
  "append_context c s = Some ((case c of None \<Rightarrow> ''undefined'' | Some t \<Rightarrow> t) @ s)"

definition find_property :: "pvalue list \<Rightarrow> string \<Rightarrow> pvalue option" where
  "find_property ps nm = find (\<lambda>p. p_name p = VStr nm) ps"

text \<open>\<^verbatim>\<open>scene.root.path\<close>\<close>

definition root_path :: "Scene \<Rightarrow> error + jsval" where
  "root_path scene =
     (case root scene of
        None \<Rightarrow> Inl (TypeError ''Cannot read properties of undefined'')
      | Some a \<Rightarrow> Inr (path (heap scene ! a)))"

text \<open>
  Lines 94 to 110: the parent and the paths of a node, as (parent, absolute, relative).
\<close>

definition resolve_path ::
  "(string \<Rightarrow> string) \<Rightarrow> Scene \<Rightarrow> jsval \<Rightarrow> jsval \<Rightarrow> error + (jsval \<times> jsval \<times> jsval)" where
  "resolve_path nts scene name parent0 =
     (if truthy nts parent0
      then (case root_path scene of
              Inl e \<Rightarrow> Inl e
            | Inr rp \<Rightarrow>
                if parent0 = VStr ''.''
                then Inr (rp, VStr (toString nts rp @ ''/'' @ toString nts name), name)
                else (let relative = VStr (toString nts parent0 @ ''/'' @ toString nts name);
                          parent1 = VStr (toString nts rp @ ''/'' @ toString nts parent0)
                      in Inr (parent1,
                              VStr (toString nts parent1 @ ''/'' @ toString nts name),
                              relative)))
      else Inr (parent0, name, name))"

text \<open>Lines 127 to 136: the instance field of the tag.\<close>

definition resolve_instance ::
  "(string \<Rightarrow> string) \<Rightarrow> Scene \<Rightarrow> jsval \<Rightarrow> SceneNode \<Rightarrow> error + SceneNode" where
  "resolve_instance nts scene instance node =
     (case js_length instance of
        None \<Rightarrow> Inr node
      | Some len \<Rightarrow>
          if len > 0
          then (case index0 instance of
                  Inl e \<Rightarrow> Inl e
                | Inr ident \<Rightarrow>
                    (case resource_path (externalResources scene) (toString nts ident) of
                       Inl e \<Rightarrow> Inl e
                     | Inr rp \<Rightarrow>
                         (case includes_tscn rp of
                            Inl e \<Rightarrow> Inl e
                          | Inr openable \<Rightarrow>
                              (let n1 = node\<lparr>resourcePath := rp\<rparr>;
                                   n2 = (if openable
                                         then n1\<lparr>contextValue :=
                                                   append_context (contextValue n1) ''openable''\<rparr>
                                         else n1)
                               in Inr (n2\<lparr>contextValue :=
                                           append_context (contextValue n2)
                                             ''hasResourcePath''\<rparr>)))))
          else Inr node)"

text \<open>Lines 138 to 143: the script property.\<close>

definition resolve_script :: "pvalue list \<Rightarrow> SceneNode \<Rightarrow> error + SceneNode" where
  "resolve_script props node =
     (case find_property props ''script'' of
        None \<Rightarrow> Inr node
      | Some script \<Rightarrow>
          (case index0 (p_value script) of
             Inl e \<Rightarrow> Inl e
           | Inr sid \<Rightarrow>
               Inr (node\<lparr>hasScript := True, scriptId := sid,
                         contextValue := append_context (contextValue node) ''hasScript''\<rparr>)))"

text \<open>
  The key that \<^verbatim>\<open>nodes.get(parent)\<close> looks up. A parent that is an array or a map is the
  path of the root (line 102), and so the name of the tag of the root.
\<close>

definition parent_key :: "(string \<Rightarrow> string) \<Rightarrow> Scene \<Rightarrow> jsval \<Rightarrow> node_key option" where
  "parent_key nts scene v =
     (if is_object v then map_option Reference (root scene)
      else Some (Value (canonical nts v)))"

text \<open>
  Lines 146 to 152: the node becomes the root, or is pushed onto the children of the
  node that \<^verbatim>\<open>nodes\<close> holds for its parent, and is then set into \<^verbatim>\<open>nodes\<close> under its
  absolute path.
\<close>

definition insert_node :: "(string \<Rightarrow> string) \<Rightarrow> Scene \<Rightarrow> SceneNode \<Rightarrow> Scene" where
  "insert_node nts scene node =
     (let a = length (heap scene);
          s1 = (if parent node = VUndefined then scene\<lparr>root := Some a\<rparr>
                else if truthy nts (parent node)
                then (case (case parent_key nts scene (parent node) of
                              None \<Rightarrow> None
                            | Some k \<Rightarrow> map_of (nodes scene) k) of
                        None \<Rightarrow> scene
                      | Some p \<Rightarrow>
                          scene\<lparr>heap := (heap scene)
                                  [p := (heap scene ! p)\<lparr>children :=
                                          children (heap scene ! p) @ [a]\<rparr>]\<rparr>)
                else scene)
      in s1\<lparr>heap := heap s1 @ [node],
            nodes := map_set (path_key nts a (path node)) a (nodes s1)\<rparr>)"

text \<open>
  Lines 112 to 125: the node object with the fields that are set from the tag, the
  property lines and the resolved paths, given as (parent, absolute, relative).
\<close>

definition make_node ::
  "Tag \<Rightarrow> string list \<Rightarrow> pvalue list \<Rightarrow> jsval \<times> jsval \<times> jsval \<Rightarrow> SceneNode" where
  "make_node tag texts props pths =
     (let name = getField tag ''name'';
          type = nullish (getField tag ''type'') (VStr ''PackedScene'')
      in \<lparr>label = name, className = type, description = type,
          path = fst (snd pths), relativePath = snd (snd pths), parent = fst pths,
          node_text = tag_text tag, body = join [CHR 0x0A] texts,
          position = tag_pos tag, properties = props,
          unique = nullish
            (case find_property props ''unique_name_in_owner'' of
               None \<Rightarrow> VUndefined
             | Some p \<Rightarrow> p_value p) (VBool False),
          resourcePath = VUndefined, contextValue = None,
          hasScript = False, scriptId = VStr [], children = []\<rparr>)"

text \<open>The node branch of \<^verbatim>\<open>parseScene\<close>, after the property loop.\<close>

definition node_branch ::
  "(string \<Rightarrow> string) \<Rightarrow> Scene \<Rightarrow> Tag \<Rightarrow> string list \<Rightarrow> pvalue list \<Rightarrow> error + Scene" where
  "node_branch nts scene tag texts props =
     (case resolve_path nts scene (getField tag ''name'') (getField tag ''parent'') of
        Inl e \<Rightarrow> Inl e
      | Inr pths \<Rightarrow>
          (case resolve_instance nts scene (getField tag ''instance'')
                  (make_node tag texts props pths) of
             Inl e \<Rightarrow> Inl e
           | Inr n1 \<Rightarrow>
               (case resolve_script props n1 of
                  Inl e \<Rightarrow> Inl e
                | Inr n2 \<Rightarrow> Inr (insert_node nts scene n2))))"

text \<open>The loops over the property lines that follow a tag.\<close>

fun property_loop ::
  "(string \<Rightarrow> string) \<Rightarrow> nat \<Rightarrow> lexer \<Rightarrow> string list \<Rightarrow> pvalue list
     \<Rightarrow> ((string list \<times> pvalue list) \<times> lexer) result" where
  "property_loop nts 0 l texts props = OutOfFuel"
| "property_loop nts (Suc k) l texts props =
     and_then (peek l) (\<lambda>(t, l1).
       if ttype t = IDENTIFIER
       then and_then (parseProperty nts k l1) (\<lambda>(property, l2).
              property_loop nts k l2 (texts @ [p_text property]) (props @ [property]))
       else Ok ((texts, props), l1))"

definition resource_of :: "Tag \<Rightarrow> string \<Rightarrow> pvalue list option \<Rightarrow> GDResource" where
  "resource_of tag b ps =
     \<lparr>r_body = b, r_path = getField tag ''path'', r_type = getField tag ''type'',
      r_uid = getField tag ''uid'', r_id = getField tag ''id'', r_line = tag_line tag,
      r_properties = ps\<rparr>"

datatype status = Done | Failed error | NoFuel

text \<open>
  One tag of the top-level loop: the tag is parsed and dispatched on its name. A throw
  leaves the scene as it was before the tag.
\<close>

definition scene_tag ::
  "(string \<Rightarrow> string) \<Rightarrow> nat \<Rightarrow> lexer \<Rightarrow> Scene \<Rightarrow> (Scene \<times> lexer) result" where
  "scene_tag nts n l scene =
     and_then (parseTag nts n l) (\<lambda>(tag, l1).
       if tag_name tag = VStr ''ext_resource''
       then Ok (scene\<lparr>externalResources :=
                   set_resource (toString nts (getField tag ''id''))
                     (resource_of tag (tag_text tag) None) (externalResources scene)\<rparr>, l1)
       else if tag_name tag = VStr ''sub_resource''
       then and_then (property_loop nts n l1 [tag_text tag] []) (\<lambda>((texts, props), l2).
              Ok (scene\<lparr>subResources :=
                     set_resource (toString nts (getField tag ''id''))
                       (resource_of tag (join [CHR 0x0A] texts) (Some props))
                       (subResources scene)\<rparr>, l2))
       else if tag_name tag = VStr ''node''
       then and_then (property_loop nts n l1 [tag_text tag] []) (\<lambda>((texts, props), l2).
              case node_branch nts scene tag texts props of
                Inl e \<Rightarrow> Throw e
              | Inr scene' \<Rightarrow> Ok (scene', l2))
       else Ok (scene, l1))"

text \<open>
  \<^verbatim>\<open>parseScene\<close>: the result is how the call ends together with the scene object as the
  call leaves it.
\<close>

fun parseScene ::
  "(string \<Rightarrow> string) \<Rightarrow> nat \<Rightarrow> lexer \<Rightarrow> Scene \<Rightarrow> status \<times> Scene" where
  "parseScene nts 0 l scene = (NoFuel, scene)"
| "parseScene nts (Suc k) l scene =
     (case peek l of
        Throw e \<Rightarrow> (Failed e, scene)
      | OutOfFuel \<Rightarrow> (NoFuel, scene)
      | Ok (t, l1) \<Rightarrow>
          if ttype t = EOF then (Done, scene)
          else if tcolumn t \<noteq> 1 \<or> ttype t \<noteq> BRACKET_OPEN
          then (case token l1 of
                  Throw e \<Rightarrow> (Failed e, scene)
                | OutOfFuel \<Rightarrow> (NoFuel, scene)
                | Ok (u, l2) \<Rightarrow> parseScene nts k l2 scene)
          else (case scene_tag nts k l1 scene of
                  Throw e \<Rightarrow> (Failed e, scene)
                | OutOfFuel \<Rightarrow> (NoFuel, scene)
                | Ok (scene', l2) \<Rightarrow> parseScene nts k l2 scene'))"

text \<open>
  \<^verbatim>\<open>Parser.input(text).parse(parseScene, scene)\<close> on the shared parser, whose lexer is in
  the state \<open>l\<close> that earlier parses left.
\<close>

definition parse_text ::
  "(string \<Rightarrow> string) \<Rightarrow> nat \<Rightarrow> lexer \<Rightarrow> string \<Rightarrow> Scene \<Rightarrow> status \<times> Scene" where
  "parse_text nts n l txt scene = parseScene nts n (input_lexer l txt) scene"

text \<open>
  More fuel does not change a result: \<open>g\<close> carries \<open>f\<close> when \<open>g\<close> returns what \<open>f\<close>
  returns wherever \<open>f\<close> does not run out of fuel.
\<close>

definition carries :: "('a \<Rightarrow> 'b result) \<Rightarrow> ('a \<Rightarrow> 'b result) \<Rightarrow> bool" where
  "carries f g = (\<forall>x. f x \<noteq> OutOfFuel \<longrightarrow> g x = f x)"

text \<open>The lexer of a parser that has not parsed anything yet.\<close>

definition new_lexer :: lexer where
  "new_lexer = \<lparr>lx_input = [], lx_pos = 0, lx_line = 1, lx_column = 1, lx_pending = [],
                 lx_eof = False\<rparr>"

section \<open>Properties of a scene\<close>

text \<open>The nodes reachable from the root of a scene through the children arrays.\<close>

inductive reach :: "Scene \<Rightarrow> nat \<Rightarrow> bool" for scene :: Scene where
  reach_root: "root scene = Some r \<Longrightarrow> reach scene r"
| reach_child: "reach scene a \<Longrightarrow> c \<in> set (children (heap scene ! a)) \<Longrightarrow> reach scene c"

text \<open>Every entry of \<^verbatim>\<open>nodes\<close> is keyed by the absolute path of the node it holds.\<close>

definition keyed_by_path :: "(string \<Rightarrow> string) \<Rightarrow> Scene \<Rightarrow> bool" where
  "keyed_by_path nts scene =
     (\<forall>kv \<in> set (nodes scene).
        snd kv < length (heap scene) \<and>
        path_key nts (snd kv) (path (heap scene ! snd kv)) = fst kv)"

text \<open>
  A node appears exactly once in \<^verbatim>\<open>nodes\<close>, keyed by its absolute path: the map holds
  it under its path, and under no other key.
\<close>

definition indexed_once :: "(string \<Rightarrow> string) \<Rightarrow> Scene \<Rightarrow> nat \<Rightarrow> bool" where
  "indexed_once nts scene a =
     (map_of (nodes scene) (path_key nts a (path (heap scene ! a))) = Some a \<and>
      (\<forall>kv \<in> set (nodes scene).
         snd kv = a \<longrightarrow> fst kv = path_key nts a (path (heap scene ! a))))"

text \<open>
  No two nodes that were created have the same absolute path, as the map \<^verbatim>\<open>nodes\<close>
  compares paths.
\<close>

definition distinct_paths :: "(string \<Rightarrow> string) \<Rightarrow> Scene \<Rightarrow> bool" where
  "distinct_paths nts scene =
     distinct (map (\<lambda>a. path_key nts a (path (heap scene ! a))) [0..<length (heap scene)])"

text \<open>
  What the node branch keeps true of a scene: the entries of \<^verbatim>\<open>nodes\<close> are keyed by the
  paths of their nodes, under distinct keys; the path of every node created is a key;
  the root and the children are nodes of the heap.
\<close>

definition scene_inv :: "(string \<Rightarrow> string) \<Rightarrow> Scene \<Rightarrow> bool" where
  "scene_inv nts scene =
     (keyed_by_path nts scene \<and> distinct (map fst (nodes scene)) \<and>
      (\<forall>a < length (heap scene).
         path_key nts a (path (heap scene ! a)) \<in> fst ` set (nodes scene)) \<and>
      (\<forall>r. root scene = Some r \<longrightarrow> r < length (heap scene)) \<and>
      (\<forall>a < length (heap scene).
         \<forall>c \<in> set (children (heap scene ! a)). c < length (heap scene)))"


section \<open>Evaluating the lexer and the parser\<close>

lemma input_lexer_eq:
  "input_lexer l txt =
     \<lparr>lx_input = txt, lx_pos = 0, lx_line = 1, lx_column = 1, lx_pending = [],
      lx_eof = False\<rparr>"
  by (cases l) (simp add: input_lexer_def)

subsection \<open>Fuel\<close>

text \<open>
  A parser that returns or throws with some fuel does the same with any larger fuel, so
  a result obtained with enough fuel is the result of the code.
\<close>

lemma carriesD: "carries f g \<Longrightarrow> f x \<noteq> OutOfFuel \<Longrightarrow> g x = f x"
  by (simp add: carries_def)

lemma carries_refl: "carries f f"
  by (simp add: carries_def)

lemma and_then_fuel:
  assumes "and_then r f \<noteq> OutOfFuel"
  shows "r \<noteq> OutOfFuel"
  using assms by (auto simp: and_then_def)

lemma alternatives_carries:
  assumes "carries f f'" and "list_all2 carries gs gs'"
  shows "carries (alternatives f gs) (alternatives f' gs')"
  using assms
proof (induction gs arbitrary: f f' gs')
  case Nil
  then show ?case by (simp add: carries_def)
next
  case (Cons g gs)
  from Cons.prems(2) obtain g' gs'' where gs': "gs' = g' # gs''"
    and g: "carries g g'" and r: "list_all2 carries gs gs''"
    by (auto simp: list_all2_Cons1)
  have ih: "carries (alternatives g gs) (alternatives g' gs'')"
    using Cons.IH [OF g r] .
  show ?case
    unfolding carries_def gs'
  proof (intro allI impI)
    fix l assume d: "alternatives f (g # gs) l \<noteq> OutOfFuel"
    show "alternatives f' (g' # gs'') l = alternatives f (g # gs) l"
    proof (cases "f l")
      case (Ok x)
      with carriesD [OF Cons.prems(1), of l] show ?thesis by simp
    next
      case (Throw e)
      with d have "alternatives g gs l \<noteq> OutOfFuel"
        by (auto split: result.splits)
      with carriesD [OF ih, of l] carriesD [OF Cons.prems(1), of l] Throw
      show ?thesis by simp
    next
      case OutOfFuel
      with d show ?thesis by simp
    qed
  qed
qed

lemma parseArray_loop_fuel:
  assumes pv: "carries pv pv'"
  shows "parseArray_loop pv k l array \<noteq> OutOfFuel \<Longrightarrow> k \<le> k' \<Longrightarrow>
         parseArray_loop pv' k' l array = parseArray_loop pv k l array"
proof (induction k arbitrary: k' l array)
  case 0
  then show ?case by simp
next
  case (Suc k)
  from Suc.prems(2) obtain j where k': "k' = Suc j" and j: "k \<le> j"
    by (cases k') auto
  note ih = Suc.IH [OF _ j]
  show ?case
    using Suc.prems(1) carriesD [OF pv]
    by (auto simp: k' and_then_def ih split: result.splits prod.splits if_splits)
qed

lemma parseDictionary_loop_fuel:
  assumes pv: "carries pv pv'"
  shows "parseDictionary_loop nts pv k l d \<noteq> OutOfFuel \<Longrightarrow> k \<le> k' \<Longrightarrow>
         parseDictionary_loop nts pv' k' l d = parseDictionary_loop nts pv k l d"
proof (induction k arbitrary: k' l d)
  case 0
  then show ?case by simp
next
  case (Suc k)
  from Suc.prems(2) obtain j where k': "k' = Suc j" and j: "k \<le> j"
    by (cases k') auto
  note ih = Suc.IH [OF _ j]
  show ?case
    using Suc.prems(1) carriesD [OF pv]
    by (auto simp: k' and_then_def ih split: result.splits prod.splits if_splits)
qed


lemma parseArray_carries:
  assumes "carries pv pv'" and "k \<le> k'"
  shows "carries (parseArray pv k) (parseArray pv' k')"
  unfolding carries_def
proof (intro allI impI)
  fix l assume d: "parseArray pv k l \<noteq> OutOfFuel"
  show "parseArray pv' k' l = parseArray pv k l"
    using d parseArray_loop_fuel [OF assms(1) _ assms(2)]
    by (auto simp: parseArray_def and_then_def split: result.splits prod.splits)
qed

lemma parseDictionary_carries:
  assumes "carries pv pv'" and "k \<le> k'"
  shows "carries (parseDictionary nts pv k) (parseDictionary nts pv' k')"
  unfolding carries_def
proof (intro allI impI)
  fix l assume d: "parseDictionary nts pv k l \<noteq> OutOfFuel"
  show "parseDictionary nts pv' k' l = parseDictionary nts pv k l"
    using d parseDictionary_loop_fuel [OF assms(1) _ assms(2)]
    by (auto simp: parseDictionary_def and_then_def split: result.splits prod.splits)
qed

lemma praseValue_carries: "n \<le> m \<Longrightarrow> carries (praseValue nts n) (praseValue nts m)"
proof (induction n arbitrary: m)
  case 0
  show ?case by (simp add: carries_def)
next
  case (Suc n)
  from Suc.prems obtain j where m: "m = Suc j" and j: "n \<le> j"
    by (cases m) auto
  have pv: "carries (praseValue nts n) (praseValue nts j)"
    using Suc.IH [OF j] .
  have "carries
          (alternatives parseConstruct
             [\<lambda>l'. and_then (parsePrimitive l') (\<lambda>(t, l1). Ok (PTok t, l1)),
              parseArray (praseValue nts n) n, parseDictionary nts (praseValue nts n) n])
          (alternatives parseConstruct
             [\<lambda>l'. and_then (parsePrimitive l') (\<lambda>(t, l1). Ok (PTok t, l1)),
              parseArray (praseValue nts j) j, parseDictionary nts (praseValue nts j) j])"
    by (intro alternatives_carries)
       (simp_all add: carries_refl parseArray_carries [OF pv j] parseDictionary_carries [OF pv j])
  then show ?case
    by (simp add: carries_def m)
qed

lemma praseValue_fuel:
  "praseValue nts n l \<noteq> OutOfFuel \<Longrightarrow> n \<le> m \<Longrightarrow>
   praseValue nts m l = praseValue nts n l"
  using praseValue_carries [of n m nts] by (simp add: carries_def)

lemma parseProperty_carries: "n \<le> m \<Longrightarrow> carries (parseProperty nts n) (parseProperty nts m)"
  unfolding carries_def
proof (intro allI impI)
  fix l assume le: "n \<le> m" and d: "parseProperty nts n l \<noteq> OutOfFuel"
  show "parseProperty nts m l = parseProperty nts n l"
    using d carriesD [OF praseValue_carries [OF le, of nts]]
    by (auto simp: parseProperty_def and_then_def split: result.splits prod.splits)
qed

lemma parseTag_loop_fuel:
  "parseTag_loop nts k l tag texts \<noteq> OutOfFuel \<Longrightarrow> k \<le> k' \<Longrightarrow>
   parseTag_loop nts k' l tag texts = parseTag_loop nts k l tag texts"
proof (induction k arbitrary: k' l tag texts)
  case 0
  then show ?case by simp
next
  case (Suc k)
  from Suc.prems(2) obtain j where k': "k' = Suc j" and j: "k \<le> j"
    by (cases k') auto
  note ih = Suc.IH [OF _ j]
  show ?case
    using Suc.prems(1) carriesD [OF parseProperty_carries [OF j, of nts]]
    by (auto simp: k' and_then_def ih split: result.splits prod.splits if_splits)
qed

lemma parseTag_carries: "n \<le> m \<Longrightarrow> carries (parseTag nts n) (parseTag nts m)"
  unfolding carries_def
proof (intro allI impI)
  fix l assume le: "n \<le> m" and d: "parseTag nts n l \<noteq> OutOfFuel"
  show "parseTag nts m l = parseTag nts n l"
    using d parseTag_loop_fuel [OF _ le, of nts]
    by (auto simp: parseTag_def and_then_def split: result.splits prod.splits)
qed

lemma property_loop_fuel:
  "property_loop nts k l texts props \<noteq> OutOfFuel \<Longrightarrow> k \<le> k' \<Longrightarrow>
   property_loop nts k' l texts props = property_loop nts k l texts props"
proof (induction k arbitrary: k' l texts props)
  case 0
  then show ?case by simp
next
  case (Suc k)
  from Suc.prems(2) obtain j where k': "k' = Suc j" and j: "k \<le> j"
    by (cases k') auto
  note ih = Suc.IH [OF _ j]
  show ?case
    using Suc.prems(1) carriesD [OF parseProperty_carries [OF j, of nts]]
    by (auto simp: k' and_then_def ih split: result.splits prod.splits if_splits)
qed

lemma scene_tag_fuel:
  assumes d: "scene_tag nts n l scene \<noteq> OutOfFuel" and le: "n \<le> m"
  shows "scene_tag nts m l scene = scene_tag nts n l scene"
proof (cases "parseTag nts n l")
  case (Ok x)
  obtain tag l1 where x: "x = (tag, l1)" by (cases x)
  have pt: "parseTag nts m l = Ok (tag, l1)"
    using carriesD [OF parseTag_carries [OF le, of nts], of l] Ok x by simp
  let ?p = "property_loop nts n l1 [tag_text tag] []"
  have pl: "?p \<noteq> OutOfFuel \<Longrightarrow> property_loop nts m l1 [tag_text tag] [] = ?p"
    using property_loop_fuel [OF _ le] .
  show ?thesis
  proof (cases "tag_name tag = VStr ''sub_resource'' \<or> tag_name tag = VStr ''node''")
    case True
    with d Ok x have "?p \<noteq> OutOfFuel"
      by (auto simp: scene_tag_def and_then_def)
    from pl [OF this] Ok x pt show ?thesis
      by (simp add: scene_tag_def and_then_def)
  next
    case False
    with Ok x pt show ?thesis
      by (simp add: scene_tag_def and_then_def)
  qed
next
  case (Throw e)
  then have "parseTag nts m l = Throw e"
    using carriesD [OF parseTag_carries [OF le, of nts], of l] by simp
  with Throw show ?thesis by (simp add: scene_tag_def and_then_def)
next
  case OutOfFuel
  with d show ?thesis by (simp add: scene_tag_def and_then_def)
qed

lemma parseScene_fuel:
  "fst (parseScene nts n l scene) \<noteq> NoFuel \<Longrightarrow> n \<le> m \<Longrightarrow>
   parseScene nts m l scene = parseScene nts n l scene"
proof (induction n arbitrary: m l scene)
  case 0
  then show ?case by simp
next
  case (Suc n)
  from Suc.prems(2) obtain j where m: "m = Suc j" and j: "n \<le> j"
    by (cases m) auto
  note ih = Suc.IH [OF _ j]
  show ?case
  proof (cases "peek l")
    case (Ok x)
    obtain t l1 where x: "x = (t, l1)" by (cases x)
    show ?thesis
    proof (cases "ttype t = EOF")
      case True
      with Ok x m show ?thesis by simp
    next
      case ne: False
      show ?thesis
      proof (cases "tcolumn t \<noteq> 1 \<or> ttype t \<noteq> BRACKET_OPEN")
        case True
        with Suc.prems(1) Ok x ne m show ?thesis
          by (auto simp: ih split: result.splits)
      next
        case False
        show ?thesis
        proof (cases "scene_tag nts n l1 scene")
          case st: (Ok y)
          obtain s' l2 where y: "y = (s', l2)" by (cases y)
          have "scene_tag nts j l1 scene = Ok (s', l2)"
            using scene_tag_fuel [OF _ j, of nts l1 scene] st y by simp
          with Suc.prems(1) Ok x ne False st y m show ?thesis
            by (simp add: ih)
        next
          case (Throw e)
          then have "scene_tag nts j l1 scene = Throw e"
            using scene_tag_fuel [OF _ j, of nts l1 scene] by simp
          with Ok x ne False Throw m show ?thesis by simp
        next
          case OutOfFuel
          with Suc.prems(1) Ok x ne False show ?thesis by simp
        qed
      qed
    qed
  next
    case (Throw e)
    with m show ?thesis by simp
  next
    case OutOfFuel
    with Suc.prems(1) show ?thesis by simp
  qed
qed

subsection \<open>The parenthesized-argument rule\<close>

text \<open>
  C1, as the claim states it: the ARRAY token of the text \<^verbatim>\<open>(1, 2.5, "a,b")\<close> would carry
  the fragments of the split as they are written, the last two as strings. It does
  not: the value is none of the lists that the claim can be read as.
\<close>

theorem arguments_literal_split_counterexample:
  \<open>(case tokenize (input_lexer
            \<lparr>lx_input = [], lx_pos = 0, lx_line = 1, lx_column = 1, lx_pending = [],
             lx_eof = False\<rparr> ''(1, 2.5, "a,b")'') of
      Inl e \<Rightarrow> VUndefined
    | Inr l' \<Rightarrow> tvalue (hd (lx_pending l')))
   \<notin> {VList [VNum ''1'', VNum ''2.5'', VStr ''"a'', VStr ''b"''],
       VList [VNum ''1'', VNum ''2.5'', VStr ''a'', VStr ''b''],
       VList [VNum ''1'', VNum ''2.5'', VStr ''a,b''],
       VList [VNum ''1'', VNum ''2.5'', VStr ''a, b'']}\<close>
  unfolding input_lexer_eq by code_simp

text \<open>
  C1, amended: for the text \<^verbatim>\<open>(1, 2.5, "a,b")\<close> the rule produces a single ARRAY token
  (followed by the end of the input) whose value is the comma-naive split with four
  elements: the numbers 1 and 2.5, and \<^verbatim>\<open>NaN\<close> twice, because the fragments \<^verbatim>\<open>"a\<close> and
  \<^verbatim>\<open>b"\<close> each carry a quote at one end only and are converted with \<^verbatim>\<open>Number\<close>.
\<close>

theorem arguments_token_value:
  \<open>map_sum id lx_pending (tokenize (input_lexer l ''(1, 2.5, "a,b")'')) =
     Inr [Token ARRAY (VList [VNum ''1'', VNum ''2.5'', VNaN, VNaN])
            ''(1, 2.5, "a,b")'' 0 1 1,
          Token EOF (VStr []) [] 15 1 16]\<close>
  unfolding input_lexer_eq by code_simp

subsection \<open>The text of a dictionary\<close>

text \<open>
  C2, at the input \<^verbatim>\<open>{"a": 1}\<close>: \<^verbatim>\<open>parseDictionary\<close> parses the key and the value, and
  the text it builds holds the quoted key only. The text of the value is lost.
\<close>

theorem dictionary_text_drops_values:
  \<open>(case praseValue nts (5 + n) (input_lexer l ''{"a": 1}'') of
      Ok (v, l') \<Rightarrow>
        p_value v = VDict [(VStr ''a'', PTok (Token NUMBER (VNum ''1'') ''1'' 6 1 7))] \<and>
        p_text v = ''{"a"}''
    | _ \<Rightarrow> False)\<close>
proof -
  have a: \<open>praseValue nts 5 (input_lexer l ''{"a": 1}'') \<noteq> OutOfFuel\<close>
    unfolding input_lexer_eq by code_simp
  have b: \<open>praseValue nts (5 + n) (input_lexer l ''{"a": 1}'') =
           praseValue nts 5 (input_lexer l ''{"a": 1}'')\<close>
    using praseValue_fuel [OF a le_add1] .
  show ?thesis
    unfolding b unfolding input_lexer_eq by code_simp
qed

subsection \<open>Path resolution\<close>

text \<open>
  C3: for the tags \<^verbatim>\<open>[node name="A"]\<close>, \<^verbatim>\<open>[node name="B" parent="."]\<close> and
  \<^verbatim>\<open>[node name="C" parent="B"]\<close>, one per line, \<^verbatim>\<open>parseScene\<close> (with any fuel from 20 on)
  returns with A as the root,
  the absolute paths A, A/B and A/B/C, the children of A being B alone and those of B
  being C alone, and the three nodes in \<^verbatim>\<open>nodes\<close> under their absolute paths.
\<close>

theorem path_resolution_example:
  \<open>let r = parse_text nts (20 + n) l
       (''[node name="A"]'' @ [CHR 0x0A] @ ''[node name="B" parent="."]'' @ [CHR 0x0A] @
        ''[node name="C" parent="B"]'') (new_Scene p t m)
   in fst r = Done \<and> root (snd r) = Some 0 \<and>
      map label (heap (snd r)) = [VStr ''A'', VStr ''B'', VStr ''C''] \<and>
      map path (heap (snd r)) = [VStr ''A'', VStr ''A/B'', VStr ''A/B/C''] \<and>
      map children (heap (snd r)) = [[1], [2], []] \<and>
      nodes (snd r) =
        [(Value (VStr ''A''), 0), (Value (VStr ''A/B''), 1), (Value (VStr ''A/B/C''), 2)]\<close>
  (is "let r = parse_text nts (20 + n) l ?txt ?s in ?P r")
proof -
  have a: "fst (parseScene nts 20 (input_lexer l ?txt) ?s) \<noteq> NoFuel"
    unfolding input_lexer_eq by code_simp
  have b: "parse_text nts (20 + n) l ?txt ?s = parse_text nts 20 l ?txt ?s"
    unfolding parse_text_def using parseScene_fuel [OF a le_add1] .
  show ?thesis
    unfolding b unfolding input_lexer_eq parse_text_def by code_simp
qed

subsection \<open>A missing value\<close>

text \<open>
  C4: parsing \<^verbatim>\<open>[node name=]\<close> fails with an \<open>UnexpectedToken\<close> error that carries the
  token \<^verbatim>\<open>]\<close> with its position (offset 11, line 1, column 12), and the scene is left as
  it was: nothing is set into \<^verbatim>\<open>nodes\<close>.
\<close>

theorem missing_value_unexpected_token:
  \<open>parse_text nts (20 + n) l ''[node name=]'' scene =
     (Failed (UnexpectedToken IDENTIFIER
                (Token BRACKET_CLOSE (VStr '']'') '']'' 11 1 12)), scene)\<close>
proof -
  have a: "fst (parseScene nts 20 (input_lexer l ''[node name=]'') scene) \<noteq> NoFuel"
    unfolding input_lexer_eq by code_simp
  have b: "parse_text nts (20 + n) l ''[node name=]'' scene =
           parse_text nts 20 l ''[node name=]'' scene"
    unfolding parse_text_def using parseScene_fuel [OF a le_add1] .
  show ?thesis
    unfolding b unfolding input_lexer_eq parse_text_def by code_simp
qed

subsection \<open>The catch-all rule\<close>

text \<open>
  C8, at a comment followed by a line feed: the comment is ignored, the rules after it
  are tried at the line feed, none of them matches it, and \<^verbatim>\<open>_tokenize\<close> throws
  "token not recognized" there (offset 2, line 1, column 3).
\<close>

theorem comment_line_feed_not_recognized:
  \<open>tokenize (input_lexer l ([CHR 0x3B] @ ''c'' @ [CHR 0x0A] @ ''x'')) = Inl (LexError 2 1 3)\<close>
  unfolding input_lexer_eq by code_simp

section \<open>The alternatives of a value\<close>

text \<open>
  C5: \<^verbatim>\<open>praseValue\<close> tries construct, primitive, array and dictionary in this order,
  each on the lexer position that was saved at entry; the first alternative that does
  not fail gives the result, and \<^verbatim>\<open>praseValue\<close> fails exactly when all four fail. A
  primitive is a number, string, string name, color or identifier token, and
  \<^verbatim>\<open>parsePrimitive\<close> fails exactly when none of the five can be consumed.
\<close>

theorem praseValue_alternatives:
  "praseValue nts (Suc n) l =
     (case parseConstruct l of
        Throw e1 \<Rightarrow>
          (case and_then (parsePrimitive l) (\<lambda>(t, l1). Ok (PTok t, l1)) of
             Throw e2 \<Rightarrow>
               (case parseArray (praseValue nts n) n l of
                  Throw e3 \<Rightarrow>
                    (case parseDictionary nts (praseValue nts n) n l of
                       Throw e4 \<Rightarrow> Throw e1
                     | r \<Rightarrow> r)
                | r \<Rightarrow> r)
           | r \<Rightarrow> r)
      | r \<Rightarrow> r) \<and>
   ((\<exists>e. praseValue nts (Suc n) l = Throw e) =
    ((\<exists>e. parseConstruct l = Throw e) \<and> (\<exists>e. parsePrimitive l = Throw e) \<and>
     (\<exists>e. parseArray (praseValue nts n) n l = Throw e) \<and>
     (\<exists>e. parseDictionary nts (praseValue nts n) n l = Throw e))) \<and>
   ((\<exists>e. parsePrimitive l = Throw e) =
    ((\<exists>e. consume NUMBER l = Throw e) \<and> (\<exists>e. consume STRING l = Throw e) \<and>
     (\<exists>e. consume STRING_NAME l = Throw e) \<and> (\<exists>e. consume COLOR l = Throw e) \<and>
     (\<exists>e. consume IDENTIFIER l = Throw e)))"
  by (auto simp: parsePrimitive_def and_then_def split: result.splits)

section \<open>Parsing the same text twice\<close>

lemma root_path_mtime [simp]: "root_path (scene\<lparr>mtime := m\<rparr>) = root_path scene"
  by (simp add: root_path_def cong: option.case_cong)

lemma resolve_path_mtime [simp]:
  "resolve_path nts (scene\<lparr>mtime := m\<rparr>) = resolve_path nts scene"
  by (simp add: resolve_path_def fun_eq_iff)

lemma resolve_instance_mtime [simp]:
  "resolve_instance nts (scene\<lparr>mtime := m\<rparr>) = resolve_instance nts scene"
  by (simp add: resolve_instance_def fun_eq_iff cong: option.case_cong sum.case_cong if_cong)

lemma parent_key_mtime [simp]:
  "parent_key nts (scene\<lparr>mtime := m\<rparr>) = parent_key nts scene"
  by (simp add: parent_key_def fun_eq_iff)

lemma insert_node_mtime [simp]:
  "insert_node nts (scene\<lparr>mtime := m\<rparr>) node = (insert_node nts scene node)\<lparr>mtime := m\<rparr>"
  by (simp add: insert_node_def Let_def split: option.splits)

lemma node_branch_mtime:
  "node_branch nts (scene\<lparr>mtime := m\<rparr>) tag texts props =
     map_sum id (\<lambda>s. s\<lparr>mtime := m\<rparr>) (node_branch nts scene tag texts props)"
  by (simp add: node_branch_def split: sum.splits)

lemma scene_tag_mtime:
  "scene_tag nts n l (scene\<lparr>mtime := m\<rparr>) =
     and_then (scene_tag nts n l scene) (\<lambda>(s, l'). Ok (s\<lparr>mtime := m\<rparr>, l'))"
  by (auto simp: scene_tag_def and_then_def node_branch_mtime
        split: result.splits sum.splits prod.splits)

lemma parseScene_mtime:
  "parseScene nts n l (scene\<lparr>mtime := m\<rparr>) =
     (fst (parseScene nts n l scene), (snd (parseScene nts n l scene))\<lparr>mtime := m\<rparr>)"
proof (induction n arbitrary: l scene)
  case 0
  show ?case by simp
next
  case (Suc k)
  show ?case
    by (auto simp: Suc.IH scene_tag_mtime and_then_def split: result.splits prod.splits)
qed

text \<open>
  C7: two parses of the same text, on the shared parser in whatever states \<open>l1\<close> and
  \<open>l2\<close> earlier parses left its lexer, into fresh scenes that differ in \<^verbatim>\<open>mtime\<close> at most,
  end the same way with scenes that are equal once \<^verbatim>\<open>mtime\<close> is ignored.
\<close>

theorem parse_twice_same_scene:
  "fst (parse_text nts n l1 txt (new_Scene p t m1)) =
   fst (parse_text nts n l2 txt (new_Scene p t m2)) \<and>
   (snd (parse_text nts n l1 txt (new_Scene p t m1)))\<lparr>mtime := m\<rparr> =
   (snd (parse_text nts n l2 txt (new_Scene p t m2)))\<lparr>mtime := m\<rparr>"
proof -
  have a: "input_lexer l1 txt = input_lexer l2 txt"
    by (cases l1, cases l2) (simp add: input_lexer_def)
  have b: "new_Scene p t m2 = (new_Scene p t m1)\<lparr>mtime := m2\<rparr>"
    by (simp add: new_Scene_def)
  show ?thesis
    unfolding parse_text_def a b parseScene_mtime by simp
qed

section \<open>The index of the nodes\<close>

lemma map_set_mem:
  "kv \<in> set (map_set k v ps) \<Longrightarrow> kv = (k, v) \<or> kv \<in> set ps"
  by (induction ps) (auto split: if_splits)

lemma map_set_keys: "fst ` set (map_set k v ps) = insert k (fst ` set ps)"
  by (induction ps) auto

lemma map_set_distinct: "distinct (map fst ps) \<Longrightarrow> distinct (map fst (map_set k v ps))"
proof (induction ps)
  case Nil
  show ?case by simp
next
  case (Cons p ps)
  have "fst ` set (map_set k v ps) = insert k (fst ` set ps)" by (rule map_set_keys)
  with Cons show ?case by auto
qed

lemma scene_inv_new: "scene_inv nts (new_Scene p t m)"
  by (simp add: scene_inv_def keyed_by_path_def new_Scene_def)

lemma insert_node_shape:
  "\<exists>h. length h = length (heap scene) \<and>
       (\<forall>b < length (heap scene).
           path (h ! b) = path (heap scene ! b) \<and>
           set (children (h ! b)) \<subseteq> insert (length (heap scene)) (set (children (heap scene ! b)))) \<and>
       heap (insert_node nts scene node) = h @ [node] \<and>
       nodes (insert_node nts scene node) =
         map_set (path_key nts (length (heap scene)) (path node)) (length (heap scene))
           (nodes scene) \<and>
       (root (insert_node nts scene node) = root scene \<or>
        root (insert_node nts scene node) = Some (length (heap scene)))"
proof (cases "parent node = VUndefined")
  case True
  then show ?thesis
    by (intro exI [of _ "heap scene"]) (auto simp: insert_node_def Let_def)
next
  case False
  show ?thesis
  proof (cases "truthy nts (parent node)")
    case nt: False
    with False show ?thesis
      by (intro exI [of _ "heap scene"]) (auto simp: insert_node_def Let_def)
  next
    case tr: True
    show ?thesis
    proof (cases "case parent_key nts scene (parent node) of
                    None \<Rightarrow> None
                  | Some k \<Rightarrow> map_of (nodes scene) k")
      case None
      with False tr show ?thesis
        by (intro exI [of _ "heap scene"]) (auto simp: insert_node_def Let_def)
    next
      case (Some p)
      let ?h = "(heap scene)[p := (heap scene ! p)\<lparr>children :=
                   children (heap scene ! p) @ [length (heap scene)]\<rparr>]"
      have "\<forall>b < length (heap scene).
              path (?h ! b) = path (heap scene ! b) \<and>
              set (children (?h ! b)) \<subseteq>
                insert (length (heap scene)) (set (children (heap scene ! b)))"
      proof (intro allI impI)
        fix b assume b: "b < length (heap scene)"
        show "path (?h ! b) = path (heap scene ! b) \<and>
              set (children (?h ! b)) \<subseteq>
                insert (length (heap scene)) (set (children (heap scene ! b)))"
        proof (cases "b = p")
          case True
          with b show ?thesis by auto
        next
          case False
          then show ?thesis by auto
        qed
      qed
      with False tr Some show ?thesis
        by (intro exI [of _ ?h]) (simp add: insert_node_def Let_def)
    qed
  qed
qed

lemma scene_inv_insert_node:
  assumes inv: "scene_inv nts scene" and ch: "children node = []"
  shows "scene_inv nts (insert_node nts scene node)"
proof -
  let ?s = "insert_node nts scene node"
  let ?n = "length (heap scene)"
  let ?k = "path_key nts ?n (path node)"
  obtain h where len: "length h = ?n"
    and old: "\<forall>b < ?n. path (h ! b) = path (heap scene ! b) \<and>
                set (children (h ! b)) \<subseteq> insert ?n (set (children (heap scene ! b)))"
    and hp: "heap ?s = h @ [node]"
    and nd: "nodes ?s = map_set ?k ?n (nodes scene)"
    and rt: "root ?s = root scene \<or> root ?s = Some ?n"
    using insert_node_shape [of scene nts node] by blast
  have k: "keyed_by_path nts scene" and d: "distinct (map fst (nodes scene))"
    and c: "\<forall>a < ?n. path_key nts a (path (heap scene ! a)) \<in> fst ` set (nodes scene)"
    and r: "\<forall>r. root scene = Some r \<longrightarrow> r < ?n"
    and e: "\<forall>a < ?n. \<forall>c \<in> set (children (heap scene ! a)). c < ?n"
    using inv by (auto simp: scene_inv_def)
  have k': "keyed_by_path nts ?s"
    unfolding keyed_by_path_def
  proof
    fix kv assume "kv \<in> set (nodes ?s)"
    then have "kv = (?k, ?n) \<or> kv \<in> set (nodes scene)"
      using map_set_mem [of kv ?k ?n "nodes scene"] by (simp add: nd)
    then show "snd kv < length (heap ?s) \<and>
               path_key nts (snd kv) (path (heap ?s ! snd kv)) = fst kv"
    proof
      assume "kv = (?k, ?n)"
      then show ?thesis by (simp add: hp len nth_append)
    next
      assume m: "kv \<in> set (nodes scene)"
      with k have "snd kv < ?n"
        and "path_key nts (snd kv) (path (heap scene ! snd kv)) = fst kv"
        by (auto simp: keyed_by_path_def)
      with old show ?thesis by (simp add: hp len nth_append)
    qed
  qed
  have d': "distinct (map fst (nodes ?s))"
    using d by (simp add: nd map_set_distinct)
  have c': "\<forall>a < length (heap ?s).
              path_key nts a (path (heap ?s ! a)) \<in> fst ` set (nodes ?s)"
  proof (intro allI impI)
    fix a assume "a < length (heap ?s)"
    then have "a < ?n \<or> a = ?n" by (auto simp: hp len)
    then show "path_key nts a (path (heap ?s ! a)) \<in> fst ` set (nodes ?s)"
    proof
      assume a: "a < ?n"
      with old c have "path_key nts a (path (h ! a)) \<in> fst ` set (nodes scene)" by simp
      with a show ?thesis by (simp add: hp len nth_append nd map_set_keys)
    next
      assume "a = ?n"
      then show ?thesis by (simp add: hp len nth_append nd map_set_keys)
    qed
  qed
  have r': "\<forall>x. root ?s = Some x \<longrightarrow> x < length (heap ?s)"
    using rt r by (auto simp: hp len less_Suc_eq)
  have e': "\<forall>a < length (heap ?s). \<forall>x \<in> set (children (heap ?s ! a)). x < length (heap ?s)"
  proof (intro allI impI ballI)
    fix a x assume "a < length (heap ?s)" and x: "x \<in> set (children (heap ?s ! a))"
    then have "a < ?n \<or> a = ?n" by (auto simp: hp len)
    then show "x < length (heap ?s)"
    proof
      assume a: "a < ?n"
      with x have "x \<in> set (children (h ! a))" by (simp add: hp len nth_append)
      with old a have "x = ?n \<or> x \<in> set (children (heap scene ! a))" by auto
      with e a show ?thesis by (auto simp: hp len less_Suc_eq)
    next
      assume "a = ?n"
      with x ch show ?thesis by (simp add: hp len nth_append)
    qed
  qed
  show ?thesis
    unfolding scene_inv_def using k' d' c' r' e' by blast
qed

lemma resolve_instance_children:
  "resolve_instance nts scene inst node = Inr n' \<Longrightarrow> children n' = children node"
  unfolding resolve_instance_def Let_def
  by (simp split: option.split_asm sum.split_asm if_split_asm) auto

lemma resolve_script_children:
  "resolve_script props node = Inr n' \<Longrightarrow> children n' = children node"
  unfolding resolve_script_def
  by (simp split: option.split_asm sum.split_asm) auto


lemma node_branch_inserts:
  "node_branch nts scene tag texts props = Inr scene' \<Longrightarrow>
   \<exists>n2. children n2 = [] \<and> scene' = insert_node nts scene n2"
  unfolding node_branch_def
  by (auto simp: make_node_def Let_def split: sum.split_asm
        dest!: resolve_script_children resolve_instance_children)

lemma scene_inv_resources:
  "scene_inv nts (scene\<lparr>externalResources := x\<rparr>) = scene_inv nts scene"
  "scene_inv nts (scene\<lparr>subResources := y\<rparr>) = scene_inv nts scene"
  by (simp_all add: scene_inv_def keyed_by_path_def)


lemma scene_tag_cases:
  assumes "scene_tag nts n l scene = Ok (scene', l')"
  shows "(\<exists>x. scene' = scene\<lparr>externalResources := x\<rparr>) \<or>
         (\<exists>y. scene' = scene\<lparr>subResources := y\<rparr>) \<or>
         (\<exists>tag texts props. node_branch nts scene tag texts props = Inr scene') \<or>
         scene' = scene"
proof (cases "parseTag nts n l")
  case (Ok r)
  obtain tag l1 where r: "r = (tag, l1)" by (cases r)
  show ?thesis
  proof (cases "tag_name tag = VStr ''ext_resource''")
    case True
    with assms Ok r show ?thesis by (auto simp: scene_tag_def and_then_def)
  next
    case ne: False
    show ?thesis
    proof (cases "tag_name tag = VStr ''sub_resource''")
      case True
      with assms Ok r ne show ?thesis
        by (auto simp: scene_tag_def and_then_def split: result.split_asm)
    next
      case ns: False
      show ?thesis
      proof (cases "tag_name tag = VStr ''node''")
        case True
        with assms Ok r ne ns show ?thesis
          by (auto simp: scene_tag_def and_then_def split: result.split_asm sum.split_asm)
      next
        case False
        with assms Ok r ne ns show ?thesis by (auto simp: scene_tag_def and_then_def)
      qed
    qed
  qed
next
  case (Throw e)
  with assms show ?thesis by (simp add: scene_tag_def and_then_def)
next
  case OutOfFuel
  with assms show ?thesis by (simp add: scene_tag_def and_then_def)
qed


lemma scene_inv_node_branch:
  assumes "scene_inv nts scene" and "node_branch nts scene tag texts props = Inr scene'"
  shows "scene_inv nts scene'"
  using node_branch_inserts [OF assms(2)] assms(1) scene_inv_insert_node by blast

lemma scene_inv_scene_tag:
  assumes "scene_inv nts scene" and "scene_tag nts n l scene = Ok (scene', l')"
  shows "scene_inv nts scene'"
  using scene_tag_cases [OF assms(2)] assms(1)
  by (auto simp: scene_inv_resources dest: scene_inv_node_branch)

lemma scene_inv_parseScene:
  "scene_inv nts scene \<Longrightarrow> parseScene nts n l scene = (st, scene') \<Longrightarrow>
   scene_inv nts scene'"
proof (induction n arbitrary: l scene)
  case 0
  then show ?case by simp
next
  case (Suc k)
  show ?case
  proof (cases "peek l")
    case (Ok r)
    obtain t l1 where r: "r = (t, l1)" by (cases r)
    show ?thesis
    proof (cases "ttype t = EOF")
      case True
      with Suc.prems Ok r show ?thesis by simp
    next
      case ne: False
      show ?thesis
      proof (cases "tcolumn t \<noteq> 1 \<or> ttype t \<noteq> BRACKET_OPEN")
        case True
        with Suc.prems Ok r ne show ?thesis
          by (auto split: result.split_asm dest: Suc.IH)
      next
        case False
        with Suc.prems Ok r ne show ?thesis
          by (auto split: result.split_asm dest: scene_inv_scene_tag Suc.IH)
      qed
    qed
  next
    case (Throw e)
    with Suc.prems show ?thesis by simp
  next
    case OutOfFuel
    with Suc.prems show ?thesis by simp
  qed
qed

lemma reach_in_heap:
  assumes "scene_inv nts scene" and "reach scene a"
  shows "a < length (heap scene)"
  using assms(2)
proof (induction rule: reach.induct)
  case (reach_root r)
  with assms(1) show ?case by (simp add: scene_inv_def)
next
  case (reach_child a c)
  with assms(1) show ?case by (simp add: scene_inv_def)
qed

lemma indexed_once_distinct:
  assumes inv: "scene_inv nts scene" and dp: "distinct_paths nts scene"
    and a: "a < length (heap scene)"
  shows "indexed_once nts scene a"
proof -
  let ?key = "\<lambda>a. path_key nts a (path (heap scene ! a))"
  have k: "keyed_by_path nts scene" and d: "distinct (map fst (nodes scene))"
    and c: "?key a \<in> fst ` set (nodes scene)"
    using inv a by (auto simp: scene_inv_def)
  from c obtain b where m: "(?key a, b) \<in> set (nodes scene)" by auto
  with k have b: "b < length (heap scene)" and e: "?key b = ?key a"
    by (auto simp: keyed_by_path_def)
  have "inj_on ?key (set [0..<length (heap scene)])"
    using dp by (simp add: distinct_paths_def distinct_map)
  with a b e have "b = a"
    by (auto dest: inj_onD)
  with m d have "map_of (nodes scene) (?key a) = Some a"
    by simp
  moreover have "\<forall>kv \<in> set (nodes scene). snd kv = a \<longrightarrow> fst kv = ?key a"
    using k by (auto simp: keyed_by_path_def)
  ultimately show ?thesis by (simp add: indexed_once_def)
qed

text \<open>
  C6, as the claim states it, at the tags \<^verbatim>\<open>[node name="A"]\<close>, \<^verbatim>\<open>[node name="B" parent="."]\<close>
  and \<^verbatim>\<open>[node name="B" parent="."]\<close> again: the parse completes, the first node B is a
  child of the root, and \<^verbatim>\<open>nodes\<close> does not hold it, because the second node B has taken
  its key; the absolute paths are not unique.
\<close>

theorem duplicate_path_node_not_indexed:
  \<open>fst (parse_text id 20 new_lexer
          (''[node name="A"]'' @ [CHR 0x0A] @ ''[node name="B" parent="."]'' @ [CHR 0x0A] @
           ''[node name="B" parent="."]'') (new_Scene [] [] 0)) = Done \<and>
    reach (snd (parse_text id 20 new_lexer
          (''[node name="A"]'' @ [CHR 0x0A] @ ''[node name="B" parent="."]'' @ [CHR 0x0A] @
           ''[node name="B" parent="."]'') (new_Scene [] [] 0))) 1 \<and>
    \<not> indexed_once id (snd (parse_text id 20 new_lexer
          (''[node name="A"]'' @ [CHR 0x0A] @ ''[node name="B" parent="."]'' @ [CHR 0x0A] @
           ''[node name="B" parent="."]'') (new_Scene [] [] 0))) 1 \<and>
    \<not> distinct (map path (heap (snd (parse_text id 20 new_lexer
          (''[node name="A"]'' @ [CHR 0x0A] @ ''[node name="B" parent="."]'' @ [CHR 0x0A] @
           ''[node name="B" parent="."]'') (new_Scene [] [] 0)))))\<close>
  (is "fst ?r = Done \<and> reach ?s 1 \<and> \<not> indexed_once id ?s 1 \<and>
       \<not> distinct (map path (heap ?s))")
proof -
  have d: "fst ?r = Done"
    unfolding parse_text_def input_lexer_eq by code_simp
  have r: "root ?s = Some 0"
    unfolding parse_text_def input_lexer_eq by code_simp
  have c: "1 \<in> set (children (heap ?s ! 0))"
    unfolding parse_text_def input_lexer_eq by code_simp
  have i: "\<not> indexed_once id ?s 1"
    unfolding parse_text_def input_lexer_eq by code_simp
  have p: "\<not> distinct (map path (heap ?s))"
    unfolding parse_text_def input_lexer_eq by code_simp
  have "reach ?s 1"
    using reach_child [OF reach_root [OF r] c] .
  with d i p show ?thesis by blast
qed

text \<open>
  C6, amended: after \<^verbatim>\<open>parseScene\<close> completes without error on a fresh scene, every
  entry of \<^verbatim>\<open>nodes\<close> is keyed by the absolute path of the node it holds and the keys are
  distinct; and when no two node tags of the input resolved to the same absolute path,
  as the map compares paths, every node reachable from the root through children
  edges appears exactly once in \<^verbatim>\<open>nodes\<close>, keyed by its absolute path.
\<close>

theorem nodes_index_invariant:
  assumes "parse_text nts n l txt (new_Scene p t m) = (Done, scene)"
  shows "keyed_by_path nts scene \<and> distinct (map fst (nodes scene)) \<and>
         (distinct_paths nts scene \<longrightarrow> (\<forall>a. reach scene a \<longrightarrow> indexed_once nts scene a))"
proof -
  have inv: "scene_inv nts scene"
    using assms scene_inv_parseScene [OF scene_inv_new] by (simp add: parse_text_def)
  have k: "keyed_by_path nts scene" and d: "distinct (map fst (nodes scene))"
    using inv by (simp_all add: scene_inv_def)
  have "distinct_paths nts scene \<longrightarrow> (\<forall>a. reach scene a \<longrightarrow> indexed_once nts scene a)"
    using reach_in_heap [OF inv] indexed_once_distinct [OF inv] by blast
  with k d show ?thesis by blast
qed

text \<open>
  The amended C6 at the three tags of the path resolution example, each on a line of
  its own that ends with a line feed.
\<close>

theorem nodes_index_invariant_witness:
  \<open>fst (parse_text id 20 new_lexer
          (''[node name="A"]'' @ [CHR 0x0A] @ ''[node name="B" parent="."]'' @ [CHR 0x0A] @
           ''[node name="C" parent="B"]'' @ [CHR 0x0A]) (new_Scene [] [] 0)) = Done \<and>
    distinct_paths id (snd (parse_text id 20 new_lexer
          (''[node name="A"]'' @ [CHR 0x0A] @ ''[node name="B" parent="."]'' @ [CHR 0x0A] @
           ''[node name="C" parent="B"]'' @ [CHR 0x0A]) (new_Scene [] [] 0))) \<and>
    reach (snd (parse_text id 20 new_lexer
          (''[node name="A"]'' @ [CHR 0x0A] @ ''[node name="B" parent="."]'' @ [CHR 0x0A] @
           ''[node name="C" parent="B"]'' @ [CHR 0x0A]) (new_Scene [] [] 0))) 2 \<and>
    indexed_once id (snd (parse_text id 20 new_lexer
          (''[node name="A"]'' @ [CHR 0x0A] @ ''[node name="B" parent="."]'' @ [CHR 0x0A] @
           ''[node name="C" parent="B"]'' @ [CHR 0x0A]) (new_Scene [] [] 0))) 2 \<and>
    keyed_by_path id (snd (parse_text id 20 new_lexer
          (''[node name="A"]'' @ [CHR 0x0A] @ ''[node name="B" parent="."]'' @ [CHR 0x0A] @
           ''[node name="C" parent="B"]'' @ [CHR 0x0A]) (new_Scene [] [] 0)))\<close>
  (is "fst ?r = Done \<and> distinct_paths id ?s \<and> reach ?s 2 \<and> indexed_once id ?s 2 \<and>
       keyed_by_path id ?s")
proof -
  have d: "fst ?r = Done"
    unfolding parse_text_def input_lexer_eq by code_simp
  have p: "distinct_paths id ?s"
    unfolding parse_text_def input_lexer_eq by code_simp
  have r: "root ?s = Some 0"
    unfolding parse_text_def input_lexer_eq by code_simp
  have c1: "1 \<in> set (children (heap ?s ! 0))"
    unfolding parse_text_def input_lexer_eq by code_simp
  have c2: "2 \<in> set (children (heap ?s ! 1))"
    unfolding parse_text_def input_lexer_eq by code_simp
  have re: "reach ?s 2"
    using reach_child [OF reach_child [OF reach_root [OF r] c1] c2] .
  have e: "?r = (Done, ?s)"
    using d by (simp add: prod_eq_iff)
  show ?thesis
    using nodes_index_invariant [OF e] d p re by blast
qed

text \<open>
  Numbers as paths: the names 1 and 1.0 are the same double, which JavaScript prints as
  1, so the second node takes the entry of the first in \<^verbatim>\<open>nodes\<close>.
\<close>

lemma number_paths_same_key:
  \<open>nodes (snd (parse_text (\<lambda>s. if s = ''1.0'' then ''1'' else s) 20 new_lexer
            (''[node name=1]'' @ [CHR 0x0A] @ ''[node name=1.0 parent=0]'' @ [CHR 0x0A])
            (new_Scene [] [] 0))) = [(Value (VNum ''1''), 1)]\<close>
  unfolding parse_text_def input_lexer_eq by code_simp

section \<open>An instance that names no resource\<close>






text \<open>
  The key of a first element that is a token, as in \<^verbatim>\<open>instance=[1]\<close>: the text that the
  token prints for itself.
\<close>

lemma token_key_text:
  \<open>toString id (VObj (PTok (Token NUMBER (VNum ''1'') ''1'' 28 2 13))) =
     ''NUMBER (value: 1, text: "1", pos: 28, line: 2, column: 13)''\<close>
  by code_simp

section \<open>Empty parentheses\<close>

lemma ident_start_facts:
  assumes "is_ident_start c"
  shows "\<not> is_space c" and "c \<noteq> CHR 0x3B" and "c \<noteq> CHR ''(''"
    and "c \<notin> set ''{}[]()''" and "c \<notin> set '':,=.''" and "c \<noteq> CHR ''#''"
    and "c \<noteq> CHR 0x22" and "c \<noteq> CHR ''&''" and "c \<noteq> CHR ''+''" and "c \<noteq> CHR ''-''"
    and "\<not> is_digit c" and "c \<noteq> CHR ''.''"
  using assms by (auto simp: is_ident_start_def is_space_def is_digit_def)

lemma no_match_before_identifier:
  assumes "is_ident_start c"
  shows "match_whitespace (c # t) = None" and "match_comment (c # t) = None"
    and "match_arguments (c # t) = None" and "match_one_of ''{}[]()'' (c # t) = None"
    and "match_one_of '':,=.'' (c # t) = None" and "match_color (c # t) = None"
    and "match_string (c # t) = None" and "match_number (c # t) = None"
  using ident_start_facts [OF assms]
  by (simp_all add: match_whitespace_def match_comment_def match_arguments_def
        match_one_of_def match_color_def match_string_def match_number_def
        number_sign_def number_mantissa_def)

lemma match_identifier_text:
  assumes "is_ident_start c" and "\<forall>x \<in> set cs. is_ident_char x"
  shows "match_identifier (c # cs @ ''()'' @ rest) = Some (c # cs, [])"
proof -
  have "\<not> is_ident_char (CHR ''('')"
    by (simp add: is_ident_char_def is_ident_start_def is_digit_def)
  then have "takeWhile is_ident_char (cs @ CHR ''('' # CHR '')'' # rest) = cs"
    using assms(2) by (simp add: takeWhile_tail)
  then show ?thesis
    using assms(1) by (simp add: match_identifier_def)
qed

lemma match_arguments_empty: "match_arguments (''()'' @ rest) = None"
  by (simp add: match_arguments_def)

lemma match_arguments_body:
  "match_arguments s = Some m \<Longrightarrow> \<exists>b. b \<noteq> [] \<and> fst m = ''('' @ b @ '')''"
  by (auto simp: match_arguments_def Let_def split: list.splits if_splits)


lemma tokenize_identifier:
  assumes "is_ident_start c" and "\<forall>x \<in> set cs. is_ident_char x"
  shows "\<exists>v ln col.
           tokenize \<lparr>lx_input = c # cs @ ''()'' @ rest, lx_pos = 0, lx_line = 1,
                     lx_column = 1, lx_pending = [], lx_eof = False\<rparr> =
           Inr \<lparr>lx_input = c # cs @ ''()'' @ rest, lx_pos = Suc (length cs), lx_line = ln,
                lx_column = col, lx_pending = [Token IDENTIFIER v (c # cs) 0 1 1],
                lx_eof = False\<rparr>"
  using match_identifier_text [OF assms, of rest]
  by (simp add: tokenize_def rules_def matchPattern_def processRule_def
        no_match_before_identifier [OF assms(1)] identifier_action_def progress_def Let_def
      del: progress_chars.simps)

lemma tokenize_open_parenthesis:
  "\<exists>ln' col'.
     tokenize \<lparr>lx_input = c # cs @ ''()'' @ rest, lx_pos = Suc (length cs), lx_line = ln,
               lx_column = col, lx_pending = [], lx_eof = False\<rparr> =
     Inr \<lparr>lx_input = c # cs @ ''()'' @ rest, lx_pos = Suc (Suc (length cs)), lx_line = ln',
          lx_column = col',
          lx_pending = [Token PARENTHESIS_OPEN (VStr ''('') ''('' (Suc (length cs)) ln col],
          lx_eof = False\<rparr>"
  by (simp add: tokenize_def rules_def matchPattern_def processRule_def
        match_whitespace_def match_comment_def match_arguments_def match_one_of_def
        is_space_def structural_action_def progress_def Let_def
      del: progress_chars.simps)

lemma identifier_then_empty_parentheses:
  assumes "is_ident_start c" and "\<forall>x \<in> set cs. is_ident_char x"
  shows "\<exists>tok par l1.
           ttype tok = IDENTIFIER \<and> ttext tok = c # cs \<and> ttype par = PARENTHESIS_OPEN \<and>
           (\<forall>ty. consume ty (input_lexer l (c # cs @ ''()'' @ rest)) =
                  (if ty = IDENTIFIER then Ok (tok, l1) else Throw (UnexpectedToken ty tok))) \<and>
           consume ARRAY l1 = Throw (UnexpectedToken ARRAY par)"
proof -
  let ?s = "c # cs @ ''()'' @ rest"
  obtain v ln col where t1:
    "tokenize \<lparr>lx_input = ?s, lx_pos = 0, lx_line = 1, lx_column = 1, lx_pending = [],
               lx_eof = False\<rparr> =
     Inr \<lparr>lx_input = ?s, lx_pos = Suc (length cs), lx_line = ln, lx_column = col,
          lx_pending = [Token IDENTIFIER v (c # cs) 0 1 1], lx_eof = False\<rparr>"
    using tokenize_identifier [OF assms, of rest] by blast
  obtain ln' col' where t2:
    "tokenize \<lparr>lx_input = ?s, lx_pos = Suc (length cs), lx_line = ln, lx_column = col,
               lx_pending = [], lx_eof = False\<rparr> =
     Inr \<lparr>lx_input = ?s, lx_pos = Suc (Suc (length cs)), lx_line = ln', lx_column = col',
          lx_pending = [Token PARENTHESIS_OPEN (VStr ''('') ''('' (Suc (length cs)) ln col],
          lx_eof = False\<rparr>"
    using tokenize_open_parenthesis [of c cs rest ln col] by blast
  let ?tok = "Token IDENTIFIER v (c # cs) 0 1 1"
  let ?par = "Token PARENTHESIS_OPEN (VStr ''('') ''('' (Suc (length cs)) ln col"
  let ?l1 = "\<lparr>lx_input = ?s, lx_pos = Suc (length cs), lx_line = ln, lx_column = col,
              lx_pending = [], lx_eof = False\<rparr>"
  have a: "\<forall>ty. consume ty (input_lexer l ?s) =
             (if ty = IDENTIFIER then Ok (?tok, ?l1) else Throw (UnexpectedToken ty ?tok))"
    unfolding input_lexer_eq using t1 by (simp add: consume_def fill_def and_then_def)
  have b: "consume ARRAY ?l1 = Throw (UnexpectedToken ARRAY ?par)"
    using t2 by (simp add: consume_def fill_def and_then_def)
  have "ttype ?tok = IDENTIFIER \<and> ttext ?tok = c # cs \<and> ttype ?par = PARENTHESIS_OPEN"
    by simp
  with a b show ?thesis by blast
qed

text \<open>
  C10: the parenthesized-argument rule does not match \<^verbatim>\<open>()\<close>, whatever follows, and a
  match of it always has at least one character between the parentheses; the text
  \<^verbatim>\<open>()\<close> gives the tokens PARENTHESIS_OPEN, PARENTHESIS_CLOSE and the end of the input;
  and for an identifier followed by \<^verbatim>\<open>()\<close>, \<^verbatim>\<open>parseConstruct\<close> fails at the opening
  parenthesis, where it expects an ARRAY token, so that \<^verbatim>\<open>praseValue\<close> returns the
  identifier as a primitive and not a construct.
\<close>

theorem empty_parentheses_no_array:
  assumes "is_ident_start c" and "\<forall>x \<in> set cs. is_ident_char x"
  shows "match_arguments (''()'' @ rest) = None \<and>
         (\<forall>s m. match_arguments s = Some m \<longrightarrow> (\<exists>b. b \<noteq> [] \<and> fst m = ''('' @ b @ '')'')) \<and>
         and_then (consume PARENTHESIS_OPEN (input_lexer l ''()'')) (\<lambda>(a, l1).
         and_then (consume PARENTHESIS_CLOSE l1) (\<lambda>(b, l2).
         and_then (consume EOF l2) (\<lambda>(e, l3). Ok [a, b, e]))) =
           Ok [Token PARENTHESIS_OPEN (VStr ''('') ''('' 0 1 1,
               Token PARENTHESIS_CLOSE (VStr '')'') '')'' 1 1 2,
               Token EOF (VStr []) [] 2 1 3] \<and>
         (\<exists>par. parseConstruct (input_lexer l (c # cs @ ''()'' @ rest)) =
                  Throw (UnexpectedToken ARRAY par) \<and> ttype par = PARENTHESIS_OPEN) \<and>
         (\<exists>tok l'. praseValue nts (Suc n) (input_lexer l (c # cs @ ''()'' @ rest)) =
                    Ok (PTok tok, l') \<and> ttype tok = IDENTIFIER \<and> ttext tok = c # cs)"
proof -
  obtain tok par l1 where tk: "ttype tok = IDENTIFIER" "ttext tok = c # cs"
    and pr: "ttype par = PARENTHESIS_OPEN"
    and cn: "\<forall>ty. consume ty (input_lexer l (c # cs @ ''()'' @ rest)) =
               (if ty = IDENTIFIER then Ok (tok, l1) else Throw (UnexpectedToken ty tok))"
    and ar: "consume ARRAY l1 = Throw (UnexpectedToken ARRAY par)"
    using identifier_then_empty_parentheses [OF assms, of l rest] by blast
  let ?l = "input_lexer l (c # cs @ ''()'' @ rest)"
  have pc: "parseConstruct ?l = Throw (UnexpectedToken ARRAY par)"
    using cn ar by (simp add: parseConstruct_def and_then_def)
  have pp: "parsePrimitive ?l = Ok (tok, l1)"
    using cn by (simp add: parsePrimitive_def)
  have pv: "praseValue nts (Suc n) ?l = Ok (PTok tok, l1)"
    using pc pp by (simp add: and_then_def)
  have e: "and_then (consume PARENTHESIS_OPEN (input_lexer l ''()'')) (\<lambda>(a, l1).
           and_then (consume PARENTHESIS_CLOSE l1) (\<lambda>(b, l2).
           and_then (consume EOF l2) (\<lambda>(e, l3). Ok [a, b, e]))) =
             Ok [Token PARENTHESIS_OPEN (VStr ''('') ''('' 0 1 1,
                 Token PARENTHESIS_CLOSE (VStr '')'') '')'' 1 1 2,
                 Token EOF (VStr []) [] 2 1 3]"
    unfolding input_lexer_eq by code_simp
  have m: "\<forall>s m. match_arguments s = Some m \<longrightarrow> (\<exists>b. b \<noteq> [] \<and> fst m = ''('' @ b @ '')'')"
    using match_arguments_body by blast
  show ?thesis
    using match_arguments_empty [of rest] m e pc pr pv tk by blast
qed

text \<open>C10 at the text \<^verbatim>\<open>Foo()\<close>.\<close>

theorem empty_parentheses_no_array_witness:
  "is_ident_start (CHR ''F'') \<and> list_all is_ident_char ''oo'' \<and>
   (\<exists>par. parseConstruct (input_lexer new_lexer ''Foo()'') =
            Throw (UnexpectedToken ARRAY par) \<and> ttype par = PARENTHESIS_OPEN) \<and>
   (\<exists>tok l'. praseValue id (Suc 0) (input_lexer new_lexer ''Foo()'') =
              Ok (PTok tok, l') \<and> ttype tok = IDENTIFIER \<and> ttext tok = ''Foo'')"
proof -
  have a: "is_ident_start (CHR ''F'')" by code_simp
  have b: "\<forall>x \<in> set ''oo''. is_ident_char x" by code_simp
  have c: "list_all is_ident_char ''oo''" by code_simp
  show ?thesis
    using empty_parentheses_no_array [OF a b, of "[]" new_lexer id 0] a c by simp
qed

end
